theory Spec2Isabelle
  imports Complex_Main "HOL-Library.Log_Nat"
begin

section \<open>Shared data model (src/audio/types.ts)\<close>

text \<open>
  Samples are JavaScript numbers. The model takes them as finite reals; a
  \<open>Float32Array\<close> is a list of samples. Clock readings
  (\<open>audioContext.currentTime\<close>) and sample rates are reals as well. Where the
  block-callback recorder computes the length of its result from the clock, the
  subtraction and the product are those of JavaScript numbers (section on doubles below).
\<close>

type_synonym Float32Array = "real list"

datatype js_error =
    AlreadyRecording
  | RecorderNotInitialized
  | EngineNotInitialized
  | RecordingInProgress
  | MediaRecorderUnsupported
  | PermissionDenied
  | RangeError
  | TypeError

record RecordingBuffer =
  rb_trackId :: nat
  rb_sampleRate :: real
  rb_numberOfChannels :: nat
  rb_length :: int
  rb_channelData :: "Float32Array list"

text \<open>
  The platform's \<open>AudioBuffer\<close>: its channel arrays, frame count and sample rate.
  \<open>numberOfChannels\<close> is the number of channel arrays.
\<close>

record AudioBuffer =
  ab_sampleRate :: real
  ab_length :: int
  ab_channelData :: "Float32Array list"

definition ab_numberOfChannels :: "AudioBuffer \<Rightarrow> nat" where
  "ab_numberOfChannels b = length (ab_channelData b)"

section \<open>Arithmetic of JavaScript numbers (IEEE 754 binary64)\<close>

text \<open>
  A finite double is \<open>m * 2^q\<close> with an integer \<open>m\<close> of at most 53 bits and
  \<open>q \<ge> -1074\<close>. The result of an arithmetic operation is the exact result rounded
  to the nearest double, a tie going to the even \<open>m\<close>. Overflow to Infinity and NaN
  are not modelled: clock readings and sample rates are far from the largest double.
\<close>

definition round_half_even :: "real \<Rightarrow> int" where
  "round_half_even x =
     (let n = \<lfloor>x\<rfloor>; r = x - of_int n in
      if r < 1 / 2 then n else if 1 / 2 < r then n + 1 else if even n then n else n + 1)"

text \<open>The binary exponent \<open>\<lfloor>log\<^sub>2 x\<rfloor>\<close> of a positive real.\<close>

definition exponent :: "real \<Rightarrow> int" where
  "exponent x = (if 1 \<le> x then bitlen \<lfloor>x\<rfloor> - 1 else - bitlen (\<lceil>1 / x\<rceil> - 1))"

text \<open>
  Rounding to the nearest double: the quantum is \<open>2^(e - 52)\<close> for a number of
  binary exponent \<open>e\<close>, and \<open>2^(-1074)\<close> in the subnormal range.
\<close>

definition binary64 :: "real \<Rightarrow> real" where
  "binary64 x =
     (if x = 0 then 0
      else let q = 2 powi (max (exponent \<bar>x\<bar> - 52) (- 1074))
           in sgn x * of_int (round_half_even (\<bar>x\<bar> / q)) * q)"

text \<open>The JavaScript operators \<open>a - b\<close> and \<open>a * b\<close> on numbers.\<close>

definition double_sub :: "real \<Rightarrow> real \<Rightarrow> real" where
  "double_sub a b = binary64 (a - b)"

definition double_mul :: "real \<Rightarrow> real \<Rightarrow> real" where
  "double_mul a b = binary64 (a * b)"

section \<open>LevelMonitor.calculateLevels (src/audio/LevelMonitor.ts)\<close>

text \<open>
  The loop keeps the running peak and the running sum of squares. The quotient
  \<open>sum / data.length\<close> is \<open>0 / 0\<close> on an empty array, which JavaScript evaluates to
  NaN; the model returns \<open>None\<close> for the rms there.
\<close>

record Levels =
  peak :: real
  rms :: "real option"

definition levels_step :: "real \<Rightarrow> real \<times> real \<Rightarrow> real \<times> real" where
  "levels_step x acc = (let a = \<bar>x\<bar> in (max (fst acc) a, snd acc + a * a))"

definition calculateLevels :: "Float32Array \<Rightarrow> Levels" where
  "calculateLevels data =
     (let acc = fold levels_step data (0, 0) in
      \<lparr> peak = min 1 (fst acc),
        rms = (if data = [] then None
               else Some (min 1 (sqrt (snd acc / real (length data))))) \<rparr>)"

section \<open>MediaRecorderWrapper, the container-based capture (in src/audio/ScriptProcessorRecorder.ts)\<close>

record Blob =
  blob_size :: nat
  blob_type :: string

datatype MediaRecorderState = Inactive | Recording | Paused

text \<open>
  Fields of the class. \<open>mrw_mediaRecorder = None\<close> is the null reference, otherwise the
  platform recorder's \<open>state\<close>. \<open>mrw_inputConnected\<close> records whether
  \<open>inputGain\<close> is connected to the capture destination; \<open>mrw_progressInterval\<close>
  whether the progress timer is set. \<open>mrw_stopCalls\<close> counts the calls of the
  platform's \<open>MediaRecorder.stop()\<close>, each of which makes the platform fire
  \<open>onstop\<close> later.
\<close>

record MediaRecorderWrapper =
  mrw_mediaRecorder :: "MediaRecorderState option"
  mrw_mediaStream :: bool
  mrw_recordedChunks :: "Blob list"
  mrw_isRecording :: bool
  mrw_isProcessing :: bool
  mrw_recordingStartTime :: real
  mrw_progressInterval :: bool
  mrw_channelCount :: nat
  mrw_inputConnected :: bool
  mrw_stopCalls :: nat

definition mrw_new :: MediaRecorderWrapper where
  "mrw_new = \<lparr> mrw_mediaRecorder = None, mrw_mediaStream = False, mrw_recordedChunks = [],
       mrw_isRecording = False, mrw_isProcessing = False, mrw_recordingStartTime = 0,
       mrw_progressInterval = False, mrw_channelCount = 2, mrw_inputConnected = False,
       mrw_stopCalls = 0 \<rparr>"

definition mrw_cleanup :: "MediaRecorderWrapper \<Rightarrow> MediaRecorderWrapper" where
  "mrw_cleanup w =
     (let w1 = w\<lparr> mrw_inputConnected := False, mrw_mediaStream := False \<rparr>;
          w2 = (if \<not> mrw_isProcessing w1 then w1\<lparr> mrw_recordedChunks := [] \<rparr> else w1)
      in w2\<lparr> mrw_mediaRecorder := None \<rparr>)"

text \<open>
  \<open>start(channelCount)\<close> at clock reading \<open>now\<close>. \<open>supported\<close> says whether the
  platform has \<open>MediaRecorder\<close> (\<open>getSupportedMimeType\<close> throws otherwise; the
  \<open>catch\<close> block runs \<open>cleanup\<close> and rethrows).
\<close>

definition mrw_start ::
  "bool \<Rightarrow> nat \<Rightarrow> real \<Rightarrow> MediaRecorderWrapper \<Rightarrow> js_error option \<times> MediaRecorderWrapper" where
  "mrw_start supported channelCount now w =
     (if mrw_isRecording w then (Some AlreadyRecording, w)
      else
        let w1 = w\<lparr> mrw_channelCount := channelCount, mrw_inputConnected := True,
                     mrw_mediaStream := True \<rparr>
        in if \<not> supported then (Some MediaRecorderUnsupported, mrw_cleanup w1)
           else (None, w1\<lparr> mrw_mediaRecorder := Some Recording, mrw_recordedChunks := [],
                            mrw_isRecording := True, mrw_recordingStartTime := now,
                            mrw_progressInterval := True \<rparr>))"

definition mrw_ondataavailable :: "Blob \<Rightarrow> MediaRecorderWrapper \<Rightarrow> MediaRecorderWrapper" where
  "mrw_ondataavailable d w =
     (if blob_size d > 0 then w\<lparr> mrw_recordedChunks := mrw_recordedChunks w @ [d] \<rparr> else w)"

definition mrw_stop :: "MediaRecorderWrapper \<Rightarrow> MediaRecorderWrapper" where
  "mrw_stop w =
     (case mrw_mediaRecorder w of
        None \<Rightarrow> w
      | Some st \<Rightarrow>
          if \<not> mrw_isRecording w then w
          else
            let w1 = w\<lparr> mrw_isRecording := False, mrw_progressInterval := False \<rparr>
            in if st \<noteq> Inactive
               then w1\<lparr> mrw_isProcessing := True, mrw_mediaRecorder := Some Inactive,
                         mrw_stopCalls := Suc (mrw_stopCalls w1) \<rparr>
               else w1)"

definition mrw_dispose :: "MediaRecorderWrapper \<Rightarrow> MediaRecorderWrapper" where
  "mrw_dispose w = (if mrw_isProcessing w then w else mrw_cleanup (mrw_stop w))"

text \<open>
  \<open>processRecording\<close>, run by the platform's \<open>onstop\<close> event. \<open>decode\<close> stands for
  the platform's blob concatenation and \<open>decodeAudioData\<close>: \<open>None\<close> is a rejected
  promise. The second component is the argument of the \<open>onComplete\<close> call, if the call
  is made. The \<open>catch\<close> block only logs; the \<open>finally\<close> block clears the processing
  flag and runs \<open>cleanup\<close>. On empty chunks the function returns before the \<open>try\<close>.
\<close>

definition mrw_result :: "AudioBuffer \<Rightarrow> RecordingBuffer" where
  "mrw_result audioBuffer =
     \<lparr> rb_trackId = 0, rb_sampleRate = ab_sampleRate audioBuffer,
       rb_numberOfChannels = ab_numberOfChannels audioBuffer,
       rb_length = ab_length audioBuffer,
       rb_channelData = ab_channelData audioBuffer \<rparr>"

definition mrw_finally :: "MediaRecorderWrapper \<Rightarrow> MediaRecorderWrapper" where
  "mrw_finally w = mrw_cleanup (w\<lparr> mrw_isProcessing := False \<rparr>)"

definition processRecording ::
  "(Blob list \<Rightarrow> AudioBuffer option) \<Rightarrow> MediaRecorderWrapper \<Rightarrow>
     MediaRecorderWrapper \<times> RecordingBuffer option" where
  "processRecording decode w =
     (if mrw_recordedChunks w = [] then (w\<lparr> mrw_isProcessing := False \<rparr>, None)
      else
        let chunksToProcess = mrw_recordedChunks w;
            w1 = w\<lparr> mrw_recordedChunks := [] \<rparr>
        in case decode chunksToProcess of
             None \<Rightarrow> (mrw_finally w1, None)
           | Some audioBuffer \<Rightarrow> (mrw_finally w1, Some (mrw_result audioBuffer)))"

section \<open>ScriptProcessorRecorder, the block-callback capture (src/audio/ScriptProcessorRecorder.ts)\<close>

text \<open>
  \<open>spr_processor = None\<close> is the null reference; otherwise the node exists and carries
  the channel count it was created with. The recording buffer holds one array per
  channel per block, in arrival order: channel 0 of block 1, channel 1 of block 1, ...
\<close>

record ScriptProcessorRecorder =
  spr_processor :: "nat option"
  spr_isRecording :: bool
  spr_recordingBuffer :: "Float32Array list"
  spr_recordingStartTime :: real
  spr_bufferSize :: nat

definition spr_new :: "nat \<Rightarrow> ScriptProcessorRecorder" where
  "spr_new bufferSize =
     \<lparr> spr_processor = None, spr_isRecording = False, spr_recordingBuffer = [],
       spr_recordingStartTime = 0, spr_bufferSize = bufferSize \<rparr>"

definition spr_start ::
  "nat \<Rightarrow> real \<Rightarrow> ScriptProcessorRecorder \<Rightarrow> js_error option \<times> ScriptProcessorRecorder" where
  "spr_start channelCount now r =
     (if spr_isRecording r then (Some AlreadyRecording, r)
      else (None, r\<lparr> spr_processor := Some channelCount, spr_isRecording := True,
                       spr_recordingStartTime := now, spr_recordingBuffer := [] \<rparr>))"

text \<open>
  \<open>onaudioprocess\<close>: every channel of the input block is copied sample by sample into
  a fresh array, which is pushed. With finite samples the copy equals the input.
\<close>

definition spr_onaudioprocess ::
  "Float32Array list \<Rightarrow> ScriptProcessorRecorder \<Rightarrow> ScriptProcessorRecorder" where
  "spr_onaudioprocess inputBuffer r =
     (if \<not> spr_isRecording r then r
      else r\<lparr> spr_recordingBuffer := spr_recordingBuffer r @ inputBuffer \<rparr>)"

text \<open>\<open>new Float32Array(n)\<close>: \<open>n\<close> zeros, a RangeError for a negative length.\<close>

definition Float32Array_new :: "int \<Rightarrow> js_error + Float32Array" where
  "Float32Array_new n = (if n < 0 then Inl RangeError else Inr (replicate (nat n) 0))"

text \<open>The indices visited by \<open>for (i = ch; i < buf.length; i += n)\<close>, for \<open>n > 0\<close>.\<close>

definition channel_chunks :: "nat \<Rightarrow> nat \<Rightarrow> 'a list \<Rightarrow> 'a list" where
  "channel_chunks ch n buf =
     map (\<lambda>i. buf ! i) (filter (\<lambda>i. ch \<le> i \<and> (i - ch) mod n = 0) [0..<length buf])"

text \<open>
  One step of the copy loop of \<open>organizeChannelData\<close>: a chunk that fits is written at
  the offset, a chunk that does not fit is skipped (and the loop goes on).
\<close>

definition place_chunk ::
  "nat \<Rightarrow> Float32Array \<Rightarrow> Float32Array \<times> nat \<Rightarrow> Float32Array \<times> nat" where
  "place_chunk totalLength chunk st =
     (let channelBuffer = fst st; offset = snd st in
      if offset + length chunk \<le> totalLength
      then (take offset channelBuffer @ chunk @ drop (offset + length chunk) channelBuffer,
            offset + length chunk)
      else st)"

definition organizeChannelData ::
  "real \<Rightarrow> Float32Array list \<Rightarrow> nat \<Rightarrow> real \<Rightarrow> js_error + Float32Array list" where
  "organizeChannelData sampleRate recordingBuffer numberOfChannels duration =
     (let totalLength = \<lfloor>double_mul duration sampleRate\<rfloor> in
      if numberOfChannels = 0 then Inr []
      else case Float32Array_new totalLength of
             Inl e \<Rightarrow> Inl e
           | Inr zeros \<Rightarrow>
               Inr (map (\<lambda>ch. fst (fold (place_chunk (nat totalLength))
                                     (channel_chunks ch numberOfChannels recordingBuffer)
                                     (zeros, 0)))
                        [0..<numberOfChannels]))"

text \<open>
  \<open>stop()\<close> at clock reading \<open>now\<close>. The second component of the result is the
  argument of the \<open>onComplete\<close> call made by this call, if any. The exception of
  \<open>organizeChannelData\<close> leaves \<open>stop\<close> after \<open>isRecording\<close> was cleared.
  \<open>duration\<close> is the difference of two numbers and the length is
  \<open>Math.floor(duration * sampleRate)\<close>, both computed in doubles.
\<close>

definition spr_stop ::
  "real \<Rightarrow> real \<Rightarrow> ScriptProcessorRecorder \<Rightarrow>
     js_error + (ScriptProcessorRecorder \<times> RecordingBuffer option)" where
  "spr_stop sampleRate now r =
     (if \<not> spr_isRecording r \<or> spr_processor r = None then Inr (r, None)
      else
        let duration = double_sub now (spr_recordingStartTime r);
            numberOfChannels = 2
        in case organizeChannelData sampleRate (spr_recordingBuffer r) numberOfChannels duration of
             Inl e \<Rightarrow> Inl e
           | Inr channelData \<Rightarrow>
               Inr (r\<lparr> spr_isRecording := False, spr_processor := None \<rparr>,
                    Some \<lparr> rb_trackId = 0, rb_sampleRate = sampleRate,
                           rb_numberOfChannels = numberOfChannels,
                           rb_length = \<lfloor>double_mul duration sampleRate\<rfloor>,
                           rb_channelData = channelData \<rparr>))"

definition spr_dispose ::
  "real \<Rightarrow> real \<Rightarrow> ScriptProcessorRecorder \<Rightarrow>
     js_error + (ScriptProcessorRecorder \<times> RecordingBuffer option)" where
  "spr_dispose sampleRate now r = spr_stop sampleRate now r"

section \<open>RecorderProcessor (public/recorder-worklet.js) and AudioBufferRecorder (in src/audio/LevelMonitor.ts)\<close>

record Chunk =
  channelData :: "Float32Array list"
  timestamp :: real

record RecorderProcessor =
  rp_isRecording :: bool
  rp_recordedChunks :: "Chunk list"
  rp_channelCount :: nat

definition rp_new :: RecorderProcessor where
  "rp_new = \<lparr> rp_isRecording = False, rp_recordedChunks = [], rp_channelCount = 2 \<rparr>"

text \<open>The \<open>start\<close> message: \<open>startRecording(event.data.channelCount || 2)\<close>.\<close>

definition rp_startRecording :: "nat \<Rightarrow> RecorderProcessor \<Rightarrow> RecorderProcessor" where
  "rp_startRecording channelCount p =
     p\<lparr> rp_isRecording := True, rp_channelCount := channelCount, rp_recordedChunks := [] \<rparr>"

definition rp_onmessage_start :: "nat \<Rightarrow> RecorderProcessor \<Rightarrow> RecorderProcessor" where
  "rp_onmessage_start channelCount p =
     rp_startRecording (if channelCount = 0 then 2 else channelCount) p"

text \<open>
  The \<open>stop\<close> message: the second component is the data of the \<open>recordingData\<close>
  message posted back, if one is posted.
\<close>

definition rp_stopRecording :: "RecorderProcessor \<Rightarrow> RecorderProcessor \<times> Chunk list option" where
  "rp_stopRecording p =
     (if \<not> rp_isRecording p then (p, None)
      else (p\<lparr> rp_isRecording := False, rp_recordedChunks := [] \<rparr>,
            Some (rp_recordedChunks p)))"

text \<open>\<open>process\<close> on the first input \<open>inputs[0]\<close> (a list of channels) at \<open>currentTime\<close>.\<close>

definition rp_process :: "Float32Array list \<Rightarrow> real \<Rightarrow> RecorderProcessor \<Rightarrow> RecorderProcessor" where
  "rp_process input currentTime p =
     (if rp_isRecording p \<and> length input > 0
      then p\<lparr> rp_recordedChunks := rp_recordedChunks p @
                 [\<lparr> channelData = take (min (length input) (rp_channelCount p)) input,
                    timestamp = currentTime \<rparr>] \<rparr>
      else p)"

record AudioBufferRecorder =
  abr_workletNode :: bool
  abr_isRecording :: bool
  abr_recordingStartTime :: real

definition abr_new :: AudioBufferRecorder where
  "abr_new = \<lparr> abr_workletNode = False, abr_isRecording = False, abr_recordingStartTime = 0 \<rparr>"

text \<open>\<open>initialize\<close>: loading the worklet module fails where the platform lacks it.\<close>

definition abr_initialize ::
  "bool \<Rightarrow> AudioBufferRecorder \<Rightarrow> js_error option \<times> AudioBufferRecorder" where
  "abr_initialize workletSupported r =
     (if workletSupported then (None, r\<lparr> abr_workletNode := True \<rparr>)
      else (Some RecorderNotInitialized, r))"

text \<open>
  \<open>start\<close> and \<open>stop\<close>: the last component is the message posted to the processor
  (the channel count of a \<open>start\<close> message; whether a \<open>stop\<close> message is posted).
\<close>

definition abr_start ::
  "nat \<Rightarrow> real \<Rightarrow> AudioBufferRecorder \<Rightarrow> js_error option \<times> AudioBufferRecorder \<times> nat option" where
  "abr_start channelCount now r =
     (if \<not> abr_workletNode r then (Some RecorderNotInitialized, r, None)
      else if abr_isRecording r then (Some AlreadyRecording, r, None)
      else (None, r\<lparr> abr_isRecording := True, abr_recordingStartTime := now \<rparr>,
            Some channelCount))"

definition abr_stop :: "AudioBufferRecorder \<Rightarrow> AudioBufferRecorder \<times> bool" where
  "abr_stop r =
     (if \<not> abr_isRecording r \<or> \<not> abr_workletNode r then (r, False)
      else (r\<lparr> abr_isRecording := False \<rparr>, True))"

definition abr_dispose :: "AudioBufferRecorder \<Rightarrow> AudioBufferRecorder \<times> bool" where
  "abr_dispose r = (let (r1, posted) = abr_stop r in (r1\<lparr> abr_workletNode := False \<rparr>, posted))"

text \<open>\<open>dst.set(src, offset)\<close> of a typed array: a RangeError when the source does not fit.\<close>

definition typed_set :: "Float32Array \<Rightarrow> Float32Array \<Rightarrow> nat \<Rightarrow> js_error + Float32Array" where
  "typed_set dst src offset =
     (if offset + length src > length dst then Inl RangeError
      else Inr (take offset dst @ src @ drop (offset + length src) dst))"

text \<open>
  The inner loop \<open>for (ch = 0; ch < numberOfChannels; ch++)\<close> of the copy: destination
  channel \<open>ch\<close> receives the chunk's channel \<open>ch\<close> where the chunk has one.
\<close>

fun copy_chunk ::
  "nat \<Rightarrow> Float32Array list \<Rightarrow> Float32Array list \<Rightarrow> js_error + Float32Array list" where
  "copy_chunk offset cs [] = Inr []"
| "copy_chunk offset [] (d # ds) = Inr (d # ds)"
| "copy_chunk offset (c # cs) (d # ds) =
     (case typed_set d c offset of
        Inl e \<Rightarrow> Inl e
      | Inr d' \<Rightarrow> (case copy_chunk offset cs ds of
                     Inl e \<Rightarrow> Inl e
                   | Inr ds' \<Rightarrow> Inr (d' # ds')))"

text \<open>
  The outer copy loop. \<open>chunk.channelData[0].length\<close> is read first and is a TypeError
  on a chunk without channels.
\<close>

fun copy_chunks ::
  "nat \<Rightarrow> Chunk list \<Rightarrow> Float32Array list \<Rightarrow> js_error + Float32Array list" where
  "copy_chunks offset [] dst = Inr dst"
| "copy_chunks offset (chunk # rest) dst =
     (case channelData chunk of
        [] \<Rightarrow> Inl TypeError
      | c0 # _ \<Rightarrow>
          (case copy_chunk offset (channelData chunk) dst of
             Inl e \<Rightarrow> Inl e
           | Inr dst' \<Rightarrow> copy_chunks (offset + length c0) rest dst'))"

text \<open>The first loop: the summed length of channel 0 over the chunks that have one.\<close>

definition chunks_totalLength :: "Chunk list \<Rightarrow> nat" where
  "chunks_totalLength recordedData =
     sum_list (map (\<lambda>chunk. case channelData chunk of [] \<Rightarrow> 0 | c0 # _ \<Rightarrow> length c0)
                   recordedData)"

text \<open>
  \<open>handleRecordingComplete\<close>, run on the \<open>recordingData\<close> message. \<open>Inr None\<close> is the
  early return without an \<open>onComplete\<close> call; \<open>Inr (Some b)\<close> is the call
  \<open>onComplete(b)\<close>.
\<close>

definition abr_result :: "real \<Rightarrow> nat \<Rightarrow> Float32Array list \<Rightarrow> js_error + RecordingBuffer option" where
  "abr_result sampleRate numberOfChannels channelData' =
     (case channelData' of
        [] \<Rightarrow> Inl TypeError
      | c0 # _ \<Rightarrow>
          Inr (Some \<lparr> rb_trackId = 0, rb_sampleRate = sampleRate,
                      rb_numberOfChannels = numberOfChannels,
                      rb_length = int (length c0),
                      rb_channelData = channelData' \<rparr>))"

definition handleRecordingComplete ::
  "real \<Rightarrow> Chunk list \<Rightarrow> js_error + RecordingBuffer option" where
  "handleRecordingComplete sampleRate recordedData =
     (case recordedData of
        [] \<Rightarrow> Inr None
      | first # _ \<Rightarrow>
          (let numberOfChannels = length (channelData first);
               totalLength = chunks_totalLength recordedData;
               zeros = replicate numberOfChannels (replicate totalLength 0)
           in (case copy_chunks 0 recordedData zeros of
                 Inl e \<Rightarrow> Inl e
               | Inr channelData' \<Rightarrow> abr_result sampleRate numberOfChannels channelData')))"

section \<open>Capture sessions\<close>

text \<open>
  A session is one \<open>start\<close>, the delivery of the blocks, one \<open>stop\<close> and what the
  platform does in answer, and a final \<open>dispose\<close>. The trace lists the calls made from
  outside and the \<open>onComplete\<close> calls made by the recorder, in the order they happen.
\<close>

datatype session_event =
    StartCalled
  | ChunkDelivered
  | StopCalled
  | DisposeCalled
  | OnComplete RecordingBuffer

definition completion :: "RecordingBuffer option \<Rightarrow> session_event list" where
  "completion cb = (case cb of None \<Rightarrow> [] | Some b \<Rightarrow> [OnComplete b])"

definition is_OnComplete :: "session_event \<Rightarrow> bool" where
  "is_OnComplete ev = (case ev of OnComplete _ \<Rightarrow> True | _ \<Rightarrow> False)"

definition spr_session ::
  "real \<Rightarrow> nat \<Rightarrow> real \<Rightarrow> Float32Array list list \<Rightarrow> real \<Rightarrow> js_error + session_event list" where
  "spr_session sampleRate channelCount t0 blocks t1 =
     (case spr_start channelCount t0 (spr_new 4096) of
        (Some e, _) \<Rightarrow> Inl e
      | (None, r1) \<Rightarrow>
          (let r2 = fold spr_onaudioprocess blocks r1 in
           (case spr_stop sampleRate t1 r2 of
              Inl e \<Rightarrow> Inl e
            | Inr (r3, cb1) \<Rightarrow>
                (case spr_dispose sampleRate t1 r3 of
                   Inl e \<Rightarrow> Inl e
                 | Inr (r4, cb2) \<Rightarrow>
                     Inr (StartCalled # map (\<lambda>_. ChunkDelivered) blocks @
                          StopCalled # completion cb1 @ DisposeCalled # completion cb2)))))"

text \<open>
  The recorder's handler of a message from the processor: a \<open>recordingData\<close> message
  runs \<open>handleRecordingComplete\<close>; \<open>None\<close> is no such message.
\<close>

definition abr_onmessage :: "real \<Rightarrow> Chunk list option \<Rightarrow> js_error + RecordingBuffer option" where
  "abr_onmessage sampleRate msg =
     (case msg of None \<Rightarrow> Inr None | Some recordedData \<Rightarrow> handleRecordingComplete sampleRate recordedData)"

text \<open>
  The worklet session: the messages between the recorder and its processor are delivered
  in order. Each input is the first input of one \<open>process\<close> call with its time.
  \<open>t1\<close> is the clock reading at \<open>stop()\<close>; this recorder reads the clock there
  only for its log. A \<open>stop\<close> message posted by \<open>stop\<close> or by \<open>dispose\<close> is answered by
  the processor.
\<close>

definition worklet_session ::
  "real \<Rightarrow> nat \<Rightarrow> real \<Rightarrow> (Float32Array list \<times> real) list \<Rightarrow> real \<Rightarrow>
     js_error + session_event list" where
  "worklet_session sampleRate channelCount t0 inputs t1 =
     (case abr_initialize True abr_new of
        (Some e, _) \<Rightarrow> Inl e
      | (None, r0) \<Rightarrow>
          (case abr_start channelCount t0 r0 of
             (Some e, _, _) \<Rightarrow> Inl e
           | (None, r1, msg) \<Rightarrow>
               (let p1 = (case msg of None \<Rightarrow> rp_new | Some c \<Rightarrow> rp_onmessage_start c rp_new);
                    p2 = fold (\<lambda>inp. rp_process (fst inp) (snd inp)) inputs p1;
                    stopped = abr_stop r1;
                    answer1 = (if snd stopped then rp_stopRecording p2 else (p2, None));
                    disposed = abr_dispose (fst stopped);
                    answer2 = (if snd disposed then rp_stopRecording (fst answer1)
                               else (fst answer1, None))
                in (case abr_onmessage sampleRate (snd answer1) of
                      Inl e \<Rightarrow> Inl e
                    | Inr cb1 \<Rightarrow>
                        (case abr_onmessage sampleRate (snd answer2) of
                           Inl e \<Rightarrow> Inl e
                         | Inr cb2 \<Rightarrow>
                             Inr (StartCalled # map (\<lambda>_. ChunkDelivered) inputs @
                                  StopCalled # completion cb1 @
                                  DisposeCalled # completion cb2))))))"

text \<open>
  The container session: \<open>blobs\<close> are the \<open>dataavailable\<close> events before
  \<open>stop()\<close>, \<open>lastBlobs\<close> those the platform fires between \<open>stop()\<close> and its
  \<open>onstop\<close> event. \<open>onstop\<close> fires when \<open>stop()\<close> (or the \<open>stop()\<close> inside
  \<open>dispose\<close>) called the platform's \<open>MediaRecorder.stop()\<close>. \<open>t1\<close> is the clock
  reading at \<open>stop()\<close>, which this recorder does not read.
\<close>

definition container_session ::
  "(Blob list \<Rightarrow> AudioBuffer option) \<Rightarrow> nat \<Rightarrow> real \<Rightarrow> Blob list \<Rightarrow> real \<Rightarrow> Blob list \<Rightarrow>
     js_error + session_event list" where
  "container_session decode channelCount t0 blobs t1 lastBlobs =
     (case mrw_start True channelCount t0 mrw_new of
        (Some e, _) \<Rightarrow> Inl e
      | (None, w1) \<Rightarrow>
          (let w2 = fold mrw_ondataavailable blobs w1;
               w3 = mrw_stop w2;
               w4 = fold mrw_ondataavailable lastBlobs w3;
               done1 = (if mrw_stopCalls w3 > mrw_stopCalls w2 then processRecording decode w4
                        else (w4, None));
               w5 = mrw_dispose (fst done1);
               done2 = (if mrw_stopCalls w5 > mrw_stopCalls (fst done1)
                        then processRecording decode w5 else (w5, None))
           in Inr (StartCalled # map (\<lambda>_. ChunkDelivered) blobs @
                   StopCalled # map (\<lambda>_. ChunkDelivered) lastBlobs @
                   completion (snd done1) @ DisposeCalled # completion (snd done2))))"

section \<open>AudioNodeManager and PlaybackManager (src/audio/AudioNodeManager.ts, src/audio/PlaybackManager.ts)\<close>

record Track =
  track_id :: nat
  track_name :: string
  audioBuffer :: "AudioBuffer option"
  isRecording :: bool
  isPlaying :: bool
  isMuted :: bool
  isSolo :: bool
  volume :: real
  pan :: real
  peakLevel :: real
  rmsLevel :: real

text \<open>A \<open>Map<number, Track>\<close>: entries in insertion order, keys distinct.\<close>

type_synonym TrackMap = "(nat \<times> Track) list"

definition tracks_modify :: "nat \<Rightarrow> (Track \<Rightarrow> Track) \<Rightarrow> TrackMap \<Rightarrow> TrackMap" where
  "tracks_modify k f ts = map (\<lambda>e. if fst e = k then (fst e, f (snd e)) else e) ts"

text \<open>
  The nodes of a track: the values of the gain and the pan parameter
  (\<open>setValueAtTime(v, currentTime)\<close> sets the value from now on).
\<close>

record TrackNodes =
  gainNode :: real
  panNode :: real

record AudioNodeManager =
  trackNodes :: "nat \<rightharpoonup> TrackNodes"
  nm_inputConnected :: bool

definition nm_new :: AudioNodeManager where
  "nm_new = \<lparr> trackNodes = Map.empty, nm_inputConnected = False \<rparr>"

definition createTrackNodes :: "nat \<Rightarrow> AudioNodeManager \<Rightarrow> AudioNodeManager" where
  "createTrackNodes trackCount nm =
     fold (\<lambda>trackId m. m\<lparr> trackNodes := (trackNodes m)(trackId \<mapsto> \<lparr> gainNode = 1, panNode = 0 \<rparr>) \<rparr>)
          [1..<Suc trackCount] nm"

definition setTrackGain :: "nat \<Rightarrow> real \<Rightarrow> AudioNodeManager \<Rightarrow> AudioNodeManager" where
  "setTrackGain trackId gain nm =
     (case trackNodes nm trackId of
        None \<Rightarrow> nm
      | Some nodes \<Rightarrow>
          nm\<lparr> trackNodes := (trackNodes nm)(trackId \<mapsto> nodes\<lparr> gainNode := max 0 (min 1 gain) \<rparr>) \<rparr>)"

definition setTrackPan :: "nat \<Rightarrow> real \<Rightarrow> AudioNodeManager \<Rightarrow> AudioNodeManager" where
  "setTrackPan trackId p nm =
     (case trackNodes nm trackId of
        None \<Rightarrow> nm
      | Some nodes \<Rightarrow>
          nm\<lparr> trackNodes := (trackNodes nm)(trackId \<mapsto> nodes\<lparr> panNode := max (- 1) (min 1 p) \<rparr>) \<rparr>)"

text \<open>
  \<open>pm_playbackSources\<close> are the keys of the source map. \<open>PlaybackManager.start\<close>
  returns the voice count, and the tracks with their \<open>isPlaying\<close> flags as the loop
  leaves them. Loop and window options only parametrise the platform's sources; the
  \<open>onended\<close> handlers run later, on the platform's events.
\<close>

record PlaybackManager =
  pm_playbackSources :: "nat list"
  pm_playbackStartTime :: real

definition pm_new :: PlaybackManager where
  "pm_new = \<lparr> pm_playbackSources = [], pm_playbackStartTime = 0 \<rparr>"

definition pm_stop :: "PlaybackManager \<Rightarrow> PlaybackManager" where
  "pm_stop pm = pm\<lparr> pm_playbackSources := [] \<rparr>"

text \<open>One iteration of \<open>tracks.forEach\<close> in \<open>start\<close>, on the entry \<open>(trackId, track)\<close>.\<close>

definition start_track ::
  "AudioNodeManager \<Rightarrow> nat \<times> Track \<Rightarrow> TrackMap \<times> nat list \<times> nat \<Rightarrow> TrackMap \<times> nat list \<times> nat" where
  "start_track nm e acc =
     (let trackId = fst e; track = snd e;
          ts = fst acc; sources = fst (snd acc); activeCount = snd (snd acc)
      in if audioBuffer track \<noteq> None \<and> \<not> isMuted track
         then (case trackNodes nm trackId of
                 Some trackNode \<Rightarrow>
                   (ts @ [(trackId, track\<lparr> isPlaying := True \<rparr>)],
                    sources @ [trackId], Suc activeCount)
               | None \<Rightarrow> (ts @ [e], sources, activeCount))
         else (ts @ [e], sources, activeCount))"

definition PlaybackManager_start ::
  "AudioNodeManager \<Rightarrow> TrackMap \<Rightarrow> real \<Rightarrow> PlaybackManager \<Rightarrow> nat \<times> TrackMap \<times> PlaybackManager" where
  "PlaybackManager_start nm tracks now pm =
     (let pm1 = (pm_stop pm)\<lparr> pm_playbackStartTime := now \<rparr>;
          res = fold (start_track nm) tracks ([], pm_playbackSources pm1, 0)
      in (snd (snd res), fst res, pm1\<lparr> pm_playbackSources := fst (snd res) \<rparr>))"

section \<open>AudioEngine (src/audio/AudioEngine.ts)\<close>

datatype AudioEngineState = IDLE | RECORDING | PLAYING | PAUSED | STOPPED

datatype Recorder =
    MRW MediaRecorderWrapper
  | ABR AudioBufferRecorder
  | SPR ScriptProcessorRecorder

datatype engine_event =
    StateChanged AudioEngineState
  | RecordingProgress nat real
  | PlaybackProgress real
  | ErrorEvent js_error
  | Initialized real
  | RecordingComplete nat real

text \<open>
  The fields of the engine. \<open>eng_audioContext\<close>, \<open>eng_mediaStream\<close> and
  \<open>eng_inputSource\<close> say whether the reference is non-null; \<open>eng_callbackTrack\<close> is
  the track id captured by the callbacks that \<open>setupRecorderCallbacks\<close> registers
  on the recorder; \<open>eng_emitted\<close> is the log of the events emitted so far. The playback
  manager holds the engine's node manager (both are created by \<open>initialize\<close>).
\<close>

record AudioEngine =
  eng_audioContext :: bool
  eng_sampleRate :: real
  eng_numberOfChannels :: nat
  eng_bufferSize :: nat
  eng_maxRecordingTime :: real
  eng_tracks :: TrackMap
  eng_state :: AudioEngineState
  eng_nodeManager :: "AudioNodeManager option"
  eng_playbackManager :: "PlaybackManager option"
  eng_mediaStream :: bool
  eng_inputSource :: bool
  eng_recorder :: "Recorder option"
  eng_callbackTrack :: nat
  eng_currentRecordingTrack :: nat
  eng_emitted :: "engine_event list"

text \<open>The decimal digit of a track number below ten, for the name \<open>Track i\<close>.\<close>

definition digit :: "nat \<Rightarrow> char" where
  "digit i = char_of (48 + i)"

definition new_track :: "nat \<Rightarrow> Track" where
  "new_track i =
     \<lparr> track_id = i, track_name = ''Track '' @ [digit i], audioBuffer = None, isRecording = False,
       isPlaying = False, isMuted = False, isSolo = False, volume = 1, pan = 0,
       peakLevel = 0, rmsLevel = 0 \<rparr>"

definition initializeTracks :: TrackMap where
  "initializeTracks = map (\<lambda>i. (i, new_track i)) [1, 2, 3, 4]"

definition new_engine :: AudioEngine where
  "new_engine =
     \<lparr> eng_audioContext = False, eng_sampleRate = 48000, eng_numberOfChannels = 2,
       eng_bufferSize = 4096, eng_maxRecordingTime = 300,
       eng_tracks = initializeTracks, eng_state = IDLE,
       eng_nodeManager = None, eng_playbackManager = None, eng_mediaStream = False,
       eng_inputSource = False, eng_recorder = None, eng_callbackTrack = 0,
       eng_currentRecordingTrack = 0, eng_emitted = [] \<rparr>"

definition emit :: "engine_event \<Rightarrow> AudioEngine \<Rightarrow> AudioEngine" where
  "emit ev eng = eng\<lparr> eng_emitted := eng_emitted eng @ [ev] \<rparr>"

definition setState :: "AudioEngineState \<Rightarrow> AudioEngine \<Rightarrow> AudioEngine" where
  "setState st eng = emit (StateChanged st) (eng\<lparr> eng_state := st \<rparr>)"

text \<open>\<open>initialize\<close> on a platform that provides an audio context.\<close>

definition initialize :: "AudioEngine \<Rightarrow> AudioEngine" where
  "initialize eng =
     emit (Initialized (eng_sampleRate eng))
       (eng\<lparr> eng_audioContext := True,
              eng_nodeManager := Some (createTrackNodes 4 nm_new),
              eng_playbackManager := Some pm_new \<rparr>)"

definition cleanup :: "AudioEngine \<Rightarrow> AudioEngine" where
  "cleanup eng =
     (let eng1 = (case eng_nodeManager eng of
                    Some nm \<Rightarrow>
                      if eng_inputSource eng
                      then eng\<lparr> eng_nodeManager := Some (nm\<lparr> nm_inputConnected := False \<rparr>),
                                eng_inputSource := False \<rparr>
                      else eng
                  | None \<Rightarrow> eng)
      in if eng_mediaStream eng1 then eng1\<lparr> eng_mediaStream := False \<rparr> else eng1)"

subsection \<open>Track controls\<close>

definition updateTrackGain :: "nat \<Rightarrow> AudioEngine \<Rightarrow> AudioEngine" where
  "updateTrackGain trackId eng =
     (case map_of (eng_tracks eng) trackId of
        None \<Rightarrow> eng
      | Some track \<Rightarrow>
          (case eng_nodeManager eng of
             None \<Rightarrow> eng
           | Some nm \<Rightarrow>
               (let hasSolo = list_ex (\<lambda>e. isSolo (snd e)) (eng_tracks eng);
                    gain = (if isMuted track \<or> (hasSolo \<and> \<not> isSolo track) then 0
                            else volume track)
                in eng\<lparr> eng_nodeManager := Some (setTrackGain trackId gain nm) \<rparr>)))"

definition setTrackVolume :: "nat \<Rightarrow> real \<Rightarrow> AudioEngine \<Rightarrow> AudioEngine" where
  "setTrackVolume trackId v eng =
     (case map_of (eng_tracks eng) trackId of
        None \<Rightarrow> eng
      | Some track \<Rightarrow>
          if eng_nodeManager eng \<noteq> None
          then updateTrackGain trackId
                 (eng\<lparr> eng_tracks :=
                     tracks_modify trackId (\<lambda>t. t\<lparr> volume := max 0 (min 1 v) \<rparr>) (eng_tracks eng) \<rparr>)
          else eng)"

text \<open>\<open>AudioEngine.setTrackPan\<close>; the plain name is the node manager's method.\<close>

definition setTrackPanE :: "nat \<Rightarrow> real \<Rightarrow> AudioEngine \<Rightarrow> AudioEngine" where
  "setTrackPanE trackId p eng =
     (case map_of (eng_tracks eng) trackId of
        None \<Rightarrow> eng
      | Some track \<Rightarrow>
          (case eng_nodeManager eng of
             None \<Rightarrow> eng
           | Some nm \<Rightarrow>
               eng\<lparr> eng_tracks :=
                      tracks_modify trackId (\<lambda>t. t\<lparr> pan := max (- 1) (min 1 p) \<rparr>) (eng_tracks eng),
                    eng_nodeManager := Some (setTrackPan trackId (max (- 1) (min 1 p)) nm) \<rparr>))"

definition muteTrack :: "nat \<Rightarrow> bool \<Rightarrow> AudioEngine \<Rightarrow> AudioEngine" where
  "muteTrack trackId mute eng =
     (case map_of (eng_tracks eng) trackId of
        None \<Rightarrow> eng
      | Some track \<Rightarrow>
          updateTrackGain trackId
            (eng\<lparr> eng_tracks := tracks_modify trackId (\<lambda>t. t\<lparr> isMuted := mute \<rparr>) (eng_tracks eng) \<rparr>))"

definition soloTrack :: "nat \<Rightarrow> bool \<Rightarrow> AudioEngine \<Rightarrow> AudioEngine" where
  "soloTrack trackId solo eng =
     (case map_of (eng_tracks eng) trackId of
        None \<Rightarrow> eng
      | Some track \<Rightarrow>
          fold updateTrackGain (map fst (eng_tracks eng))
            (eng\<lparr> eng_tracks := tracks_modify trackId (\<lambda>t. t\<lparr> isSolo := solo \<rparr>) (eng_tracks eng) \<rparr>))"

text \<open>The gain a track's node carries, if the node exists.\<close>

definition track_gain :: "AudioEngine \<Rightarrow> nat \<Rightarrow> real option" where
  "track_gain eng trackId =
     (case eng_nodeManager eng of
        None \<Rightarrow> None
      | Some nm \<Rightarrow> map_option gainNode (trackNodes nm trackId))"

subsection \<open>Playback\<close>

definition startPlayback :: "real \<Rightarrow> AudioEngine \<Rightarrow> js_error + AudioEngine" where
  "startPlayback now eng =
     (if \<not> eng_audioContext eng then Inl EngineNotInitialized
      else case eng_playbackManager eng of
             None \<Rightarrow> Inl EngineNotInitialized
           | Some pm \<Rightarrow>
               (case eng_nodeManager eng of
                  None \<Rightarrow> Inl EngineNotInitialized
                | Some nm \<Rightarrow>
                    (let res = PlaybackManager_start nm (eng_tracks eng) now pm;
                         activeCount = fst res;
                         eng1 = eng\<lparr> eng_tracks := fst (snd res),
                                      eng_playbackManager := Some (snd (snd res)) \<rparr>
                     in if activeCount > 0
                        then Inr (emit (PlaybackProgress 0) (setState PLAYING eng1))
                        else Inr eng1)))"

definition stopPlayback :: "AudioEngine \<Rightarrow> AudioEngine" where
  "stopPlayback eng =
     (case eng_playbackManager eng of
        None \<Rightarrow> eng
      | Some pm \<Rightarrow>
          setState STOPPED
            (eng\<lparr> eng_playbackManager := Some (pm_stop pm),
                  eng_tracks := map (\<lambda>e. (fst e, (snd e)\<lparr> isPlaying := False \<rparr>)) (eng_tracks eng) \<rparr>))"

subsection \<open>Recording\<close>

text \<open>
  \<open>createBuffer\<close> and the \<open>copyToChannel\<close> loop of \<open>processRecordingBuffer\<close>:
  reading a channel array the result does not have is a TypeError.
\<close>

definition copyToChannel :: "Float32Array \<Rightarrow> nat \<Rightarrow> Float32Array" where
  "copyToChannel source len = take len source @ replicate (len - length source) 0"

definition createAudioBuffer :: "RecordingBuffer \<Rightarrow> js_error + AudioBuffer" where
  "createAudioBuffer buffer =
     (if rb_numberOfChannels buffer > length (rb_channelData buffer) then Inl TypeError
      else Inr \<lparr> ab_sampleRate = rb_sampleRate buffer, ab_length = rb_length buffer,
                 ab_channelData =
                   map (\<lambda>ch. copyToChannel (rb_channelData buffer ! ch) (nat (rb_length buffer)))
                       [0..<rb_numberOfChannels buffer] \<rparr>)"

text \<open>
  \<open>processRecordingBuffer\<close>, the body of the completion callback. An exception leaves
  it before any field is written. The recorder is disposed and its reference cleared
  only on the branch that found the track.
\<close>

definition processRecordingBuffer ::
  "nat \<Rightarrow> RecordingBuffer \<Rightarrow> AudioEngine \<Rightarrow> js_error + AudioEngine" where
  "processRecordingBuffer trackId buffer eng =
     (if \<not> eng_audioContext eng then Inr eng
      else case createAudioBuffer buffer of
             Inl e \<Rightarrow> Inl e
           | Inr ab \<Rightarrow>
               (case map_of (eng_tracks eng) trackId of
                  None \<Rightarrow> Inr eng
                | Some track \<Rightarrow>
                    (let eng1 = eng\<lparr> eng_tracks :=
                                   tracks_modify trackId (\<lambda>t. t\<lparr> audioBuffer := Some ab \<rparr>)
                                     (eng_tracks eng) \<rparr>;
                         eng2 = emit (RecordingComplete trackId
                                        (real_of_int (ab_length ab) / ab_sampleRate ab)) eng1;
                         eng3 = eng2\<lparr> eng_recorder := None \<rparr>
                     in Inr (cleanup eng3))))"

text \<open>
  The platform as \<open>startRecording\<close> sees it: whether \<open>getUserMedia\<close> grants a
  stream, whether \<open>MediaRecorder\<close> exists, whether the worklet module loads.
\<close>

record Platform =
  getUserMedia_ok :: bool
  mediaRecorder_ok :: bool
  worklet_ok :: bool

text \<open>
  \<open>MediaRecorderWrapper.initialize\<close> has no failing statement, so the first
  \<open>try\<close> block of \<open>createRecorder\<close> always keeps the container-based recorder.
\<close>

definition mrw_initialize :: "MediaRecorderWrapper \<Rightarrow> js_error option \<times> MediaRecorderWrapper" where
  "mrw_initialize w = (None, w)"

definition createRecorder :: "Platform \<Rightarrow> AudioEngine \<Rightarrow> AudioEngine" where
  "createRecorder plat eng =
     (case mrw_initialize mrw_new of
        (None, w) \<Rightarrow> eng\<lparr> eng_recorder := Some (MRW w) \<rparr>
      | (Some e, w) \<Rightarrow>
          (case abr_initialize (worklet_ok plat) abr_new of
             (None, r) \<Rightarrow> eng\<lparr> eng_recorder := Some (ABR r) \<rparr>
           | (Some e2, r) \<Rightarrow> eng\<lparr> eng_recorder := Some (SPR (spr_new (eng_bufferSize eng))) \<rparr>))"

definition recorder_start ::
  "Platform \<Rightarrow> nat \<Rightarrow> real \<Rightarrow> Recorder \<Rightarrow> js_error option \<times> Recorder" where
  "recorder_start plat channelCount now rec =
     (case rec of
        MRW w \<Rightarrow> (let res = mrw_start (mediaRecorder_ok plat) channelCount now w
                  in (fst res, MRW (snd res)))
      | ABR r \<Rightarrow> (let res = abr_start channelCount now r in (fst res, ABR (fst (snd res))))
      | SPR r \<Rightarrow> (let res = spr_start channelCount now r in (fst res, SPR (snd res))))"

text \<open>
  \<open>startRecording\<close>: the first component is the error the returned promise rejects
  with, \<open>None\<close> when it resolves. The two guards throw before the \<open>try\<close> block: no
  cleanup and no error event.
\<close>

definition startRecording ::
  "Platform \<Rightarrow> real \<Rightarrow> nat \<Rightarrow> AudioEngine \<Rightarrow> js_error option \<times> AudioEngine" where
  "startRecording plat now trackId eng =
     (if \<not> eng_audioContext eng \<or> eng_nodeManager eng = None
      then (Some EngineNotInitialized, eng)
      else if eng_recorder eng \<noteq> None then (Some RecordingInProgress, eng)
      else if \<not> getUserMedia_ok plat
      then (Some PermissionDenied, emit (ErrorEvent PermissionDenied) (cleanup eng))
      else
        (let eng1 = eng\<lparr> eng_mediaStream := True, eng_inputSource := True,
                         eng_nodeManager :=
                           map_option (\<lambda>nm. nm\<lparr> nm_inputConnected := True \<rparr>) (eng_nodeManager eng) \<rparr>;
             eng2 = (createRecorder plat eng1)\<lparr> eng_callbackTrack := trackId \<rparr>
         in (case eng_recorder eng2 of
               None \<Rightarrow> (Some TypeError, emit (ErrorEvent TypeError) (cleanup eng2))
             | Some rec \<Rightarrow>
                 (let res = recorder_start plat (eng_numberOfChannels eng2) now rec;
                      eng3 = eng2\<lparr> eng_recorder := Some (snd res) \<rparr>
                  in (case fst res of
                        Some e \<Rightarrow> (Some e, emit (ErrorEvent e) (cleanup eng3))
                      | None \<Rightarrow>
                          (None,
                           (setState RECORDING (eng3\<lparr> eng_currentRecordingTrack := trackId \<rparr>))
                             \<lparr> eng_tracks :=
                                 tracks_modify trackId (\<lambda>t. t\<lparr> isRecording := True \<rparr>)
                                   (eng_tracks eng3) \<rparr>))))))"

text \<open>
  \<open>recorder.stop()\<close> as the engine calls it. The block-callback recorder invokes the
  completion callback inside \<open>stop\<close>; the other two only start their asynchronous
  completion.
\<close>

definition recorder_stop :: "real \<Rightarrow> Recorder \<Rightarrow> AudioEngine \<Rightarrow> js_error + AudioEngine" where
  "recorder_stop now rec eng =
     (case rec of
        MRW w \<Rightarrow> Inr (eng\<lparr> eng_recorder := Some (MRW (mrw_stop w)) \<rparr>)
      | ABR r \<Rightarrow> Inr (eng\<lparr> eng_recorder := Some (ABR (fst (abr_stop r))) \<rparr>)
      | SPR r \<Rightarrow>
          (case spr_stop (eng_sampleRate eng) now r of
             Inl e \<Rightarrow> Inl e
           | Inr res \<Rightarrow>
               (let eng1 = eng\<lparr> eng_recorder := Some (SPR (fst res)) \<rparr>
                in (case snd res of
                      None \<Rightarrow> Inr eng1
                    | Some buffer \<Rightarrow> processRecordingBuffer (eng_callbackTrack eng) buffer eng1))))"

definition stopRecording :: "real \<Rightarrow> AudioEngine \<Rightarrow> js_error + AudioEngine" where
  "stopRecording now eng =
     (case eng_recorder eng of
        None \<Rightarrow> Inr eng
      | Some rec \<Rightarrow>
          (case recorder_stop now rec eng of
             Inl e \<Rightarrow> Inl e
           | Inr eng1 \<Rightarrow>
               Inr (setState IDLE
                      (eng1\<lparr> eng_tracks :=
                          tracks_modify (eng_currentRecordingTrack eng1)
                            (\<lambda>t. t\<lparr> isRecording := False \<rparr>) (eng_tracks eng1) \<rparr>))))"

text \<open>
  The progress callback registered by \<open>setupRecorderCallbacks\<close>, with the guard on the
  maximum recording time, and a progress tick as the engine sees it: the timer of the
  container-based recorder and the progress message of the worklet recorder call the
  callback with the elapsed time while the recorder is recording.
\<close>

definition progress_callback :: "real \<Rightarrow> real \<Rightarrow> AudioEngine \<Rightarrow> js_error + AudioEngine" where
  "progress_callback now time eng =
     (let eng1 = emit (RecordingProgress (eng_callbackTrack eng) time) eng
      in if time \<ge> eng_maxRecordingTime eng1 then stopRecording now eng1 else Inr eng1)"

definition engine_onprogress :: "real \<Rightarrow> AudioEngine \<Rightarrow> js_error + AudioEngine" where
  "engine_onprogress now eng =
     (case eng_recorder eng of
        Some (MRW w) \<Rightarrow>
          if mrw_progressInterval w \<and> mrw_isRecording w
          then progress_callback now (double_sub now (mrw_recordingStartTime w)) eng
          else Inr eng
      | Some (ABR r) \<Rightarrow>
          if abr_isRecording r
          then progress_callback now (double_sub now (abr_recordingStartTime r)) eng
          else Inr eng
      | _ \<Rightarrow> Inr eng)"

text \<open>
  The platform's \<open>onstop\<close> event of the container-based recorder, as the engine sees
  it. The callback runs on the engine while the wrapper is still processing; the
  \<open>catch\<close> block swallows an exception of the callback; the \<open>finally\<close> block then
  runs on the wrapper, which the engine still holds only if the callback did not clear
  the reference.
\<close>

definition engine_finally :: "AudioEngine \<Rightarrow> AudioEngine" where
  "engine_finally eng =
     (case eng_recorder eng of
        Some (MRW w) \<Rightarrow> eng\<lparr> eng_recorder := Some (MRW (mrw_finally w)) \<rparr>
      | _ \<Rightarrow> eng)"

definition engine_onstop ::
  "(Blob list \<Rightarrow> AudioBuffer option) \<Rightarrow> AudioEngine \<Rightarrow> AudioEngine" where
  "engine_onstop decode eng =
     (case eng_recorder eng of
        Some (MRW w) \<Rightarrow>
          if mrw_recordedChunks w = []
          then eng\<lparr> eng_recorder := Some (MRW (w\<lparr> mrw_isProcessing := False \<rparr>)) \<rparr>
          else
            (let chunksToProcess = mrw_recordedChunks w;
                 eng1 = eng\<lparr> eng_recorder := Some (MRW (w\<lparr> mrw_recordedChunks := [] \<rparr>)) \<rparr>
             in (case decode chunksToProcess of
                   None \<Rightarrow> engine_finally eng1
                 | Some ab \<Rightarrow>
                     (case processRecordingBuffer (eng_callbackTrack eng1) (mrw_result ab) eng1 of
                        Inl e \<Rightarrow> engine_finally eng1
                      | Inr eng2 \<Rightarrow> engine_finally eng2)))
      | _ \<Rightarrow> eng)"

text \<open>The \<open>recordingData\<close> message of the worklet recorder, as the engine sees it.\<close>

definition engine_onmessage :: "Chunk list \<Rightarrow> AudioEngine \<Rightarrow> js_error + AudioEngine" where
  "engine_onmessage recordedData eng =
     (case handleRecordingComplete (eng_sampleRate eng) recordedData of
        Inl e \<Rightarrow> Inl e
      | Inr None \<Rightarrow> Inr eng
      | Inr (Some buffer) \<Rightarrow> processRecordingBuffer (eng_callbackTrack eng) buffer eng)"

text \<open>The control operations a caller can issue on a live engine.\<close>

datatype control_op =
    SetTrackVolume nat real
  | SetTrackPan nat real
  | MuteTrack nat bool
  | SoloTrack nat bool

definition control :: "control_op \<Rightarrow> AudioEngine \<Rightarrow> AudioEngine" where
  "control op eng =
     (case op of
        SetTrackVolume i v \<Rightarrow> setTrackVolume i v eng
      | SetTrackPan i p \<Rightarrow> setTrackPanE i p eng
      | MuteTrack i m \<Rightarrow> muteTrack i m eng
      | SoloTrack i b \<Rightarrow> soloTrack i b eng)"

text \<open>A \<open>dataavailable\<close> event of the engine's container-based recorder.\<close>

definition engine_ondataavailable :: "Blob \<Rightarrow> AudioEngine \<Rightarrow> AudioEngine" where
  "engine_ondataavailable d eng =
     (case eng_recorder eng of
        Some (MRW w) \<Rightarrow> eng\<lparr> eng_recorder := Some (MRW (mrw_ondataavailable d w)) \<rparr>
      | _ \<Rightarrow> eng)"

text \<open>
  The calls and platform events that can reach an engine between \<open>stopRecording\<close> and
  the completion callback. \<open>apply_op\<close> is \<open>None\<close> where \<open>stopRecording\<close> throws
  (directly or from the progress callback); a rejected \<open>startPlayback\<close> throws before
  it writes anything.
\<close>

datatype engine_op =
    Control control_op
  | StartRecording Platform real nat
  | StopRecording real
  | StartPlayback real
  | StopPlayback
  | DataAvailable Blob
  | Progress real

definition apply_op :: "engine_op \<Rightarrow> AudioEngine \<Rightarrow> AudioEngine option" where
  "apply_op op eng =
     (case op of
        Control c \<Rightarrow> Some (control c eng)
      | StartRecording plat t i \<Rightarrow> Some (snd (startRecording plat t i eng))
      | StopRecording t \<Rightarrow> (case stopRecording t eng of Inl e \<Rightarrow> None | Inr eng1 \<Rightarrow> Some eng1)
      | StartPlayback t \<Rightarrow> (case startPlayback t eng of Inl e \<Rightarrow> Some eng | Inr eng1 \<Rightarrow> Some eng1)
      | StopPlayback \<Rightarrow> Some (stopPlayback eng)
      | DataAvailable d \<Rightarrow> Some (engine_ondataavailable d eng)
      | Progress t \<Rightarrow> (case engine_onprogress t eng of Inl e \<Rightarrow> None | Inr eng1 \<Rightarrow> Some eng1))"

fun run_ops :: "engine_op list \<Rightarrow> AudioEngine \<Rightarrow> AudioEngine option" where
  "run_ops [] eng = Some eng"
| "run_ops (op # ops) eng =
     (case apply_op op eng of None \<Rightarrow> None | Some eng1 \<Rightarrow> run_ops ops eng1)"

section \<open>Observations used in the statements\<close>

text \<open>The engine after a call that returned; the fresh engine stands for a throw.\<close>

definition returned :: "js_error + AudioEngine \<Rightarrow> AudioEngine" where
  "returned r = (case r of Inr e \<Rightarrow> e | Inl _ \<Rightarrow> new_engine)"

definition initialized :: "AudioEngine \<Rightarrow> bool" where
  "initialized eng =
     (eng_audioContext eng
      \<and> \<not> Option.is_none (eng_nodeManager eng)
      \<and> \<not> Option.is_none (eng_playbackManager eng))"

definition engine_nodes :: "AudioEngine \<Rightarrow> AudioNodeManager" where
  "engine_nodes eng = (case eng_nodeManager eng of None \<Rightarrow> nm_new | Some nm \<Rightarrow> nm)"

text \<open>The track ids that have a playback source.\<close>

definition voices :: "AudioEngine \<Rightarrow> nat list" where
  "voices eng = (case eng_playbackManager eng of None \<Rightarrow> [] | Some pm \<Rightarrow> pm_playbackSources pm)"

text \<open>
  A track entry gets a voice when it has a buffer, is not muted and its id has nodes in
  the node manager; \<open>set_playing\<close> is what \<open>start\<close> does to an entry.
\<close>

definition playable :: "AudioNodeManager \<Rightarrow> nat \<times> Track \<Rightarrow> bool" where
  "playable nm e =
     (\<not> Option.is_none (audioBuffer (snd e)) \<and> \<not> isMuted (snd e)
      \<and> \<not> Option.is_none (trackNodes nm (fst e)))"

definition set_playing :: "AudioNodeManager \<Rightarrow> nat \<times> Track \<Rightarrow> nat \<times> Track" where
  "set_playing nm e = (if playable nm e then (fst e, (snd e)\<lparr> isPlaying := True \<rparr>) else e)"

text \<open>
  The effective gain in the words of the specification: 0 if the track is muted, else 0
  if some track is soloed and this track is not, else the track's own volume.
\<close>

definition spec_effective_gain :: "TrackMap \<Rightarrow> Track \<Rightarrow> real" where
  "spec_effective_gain ts t =
     (if isMuted t then 0
      else if list_ex (\<lambda>e. isSolo (snd e)) ts \<and> \<not> isSolo t then 0
      else volume t)"

text \<open>Every track's gain node carries the track's effective gain.\<close>

definition gains_resolved :: "AudioEngine \<Rightarrow> bool" where
  "gains_resolved eng =
     list_all (\<lambda>e. track_gain eng (fst e) = Some (spec_effective_gain (eng_tracks eng) (snd e)))
       (eng_tracks eng)"

text \<open>
  What the engine keeps true of its tracks: distinct ids, volumes within 0 and 1, and a
  gain node for every track.
\<close>

definition tracks_wf :: "AudioEngine \<Rightarrow> bool" where
  "tracks_wf eng =
     (distinct (map fst (eng_tracks eng))
      \<and> list_all (\<lambda>e. 0 \<le> volume (snd e) \<and> volume (snd e) \<le> 1
                      \<and> \<not> Option.is_none (track_gain eng (fst e)))
           (eng_tracks eng))"

definition solo_flags :: "AudioEngine \<Rightarrow> bool list" where
  "solo_flags eng = map (\<lambda>e. isSolo (snd e)) (eng_tracks eng)"

text \<open>The engine holds a recorder whose completion is asynchronous.\<close>

definition is_async_recorder :: "AudioEngine \<Rightarrow> bool" where
  "is_async_recorder eng =
     (case eng_recorder eng of
        Some (MRW w) \<Rightarrow> True
      | Some (ABR r) \<Rightarrow> True
      | _ \<Rightarrow> False)"

text \<open>An initialised engine that holds a recorder whose completion is asynchronous.\<close>

definition live_async :: "AudioEngine \<Rightarrow> bool" where
  "live_async eng =
     (eng_audioContext eng \<and> \<not> Option.is_none (eng_nodeManager eng) \<and> is_async_recorder eng)"

text \<open>
  A block as the platform hands it to \<open>process\<close>: at least one channel, all channels
  of the same length.
\<close>

definition uniform_block :: "Float32Array list \<times> real \<Rightarrow> bool" where
  "uniform_block inp =
     (fst inp \<noteq> [] \<and> list_all (\<lambda>c. length c = length (hd (fst inp))) (fst inp))"

text \<open>The chunks the container-based recorder keeps: the blobs that are not empty.\<close>

definition kept_blobs :: "Blob list \<Rightarrow> Blob list" where
  "kept_blobs blobs = filter (\<lambda>d. blob_size d > 0) blobs"

text \<open>The frames the processor recorded: the length of channel 0 of every non-empty input.\<close>

definition recorded_frames :: "(Float32Array list \<times> real) list \<Rightarrow> nat" where
  "recorded_frames inputs =
     sum_list (map (\<lambda>inp. length (hd (fst inp))) (filter (\<lambda>inp. fst inp \<noteq> []) inputs))"

text \<open>The chunk \<open>process\<close> records for an input when the channel count is \<open>cc\<close>.\<close>

definition recorded_chunk :: "nat \<Rightarrow> Float32Array list \<times> real \<Rightarrow> Chunk" where
  "recorded_chunk cc inp =
     \<lparr> channelData = take (min (length (fst inp)) cc) (fst inp), timestamp = snd inp \<rparr>"

text \<open>The channel count the processor works with: \<open>channelCount || 2\<close>.\<close>

definition effective_channels :: "nat \<Rightarrow> nat" where
  "effective_channels c = (if c = 0 then 2 else c)"

text \<open>A recorded chunk with at least one channel, all channels of the same length.\<close>

definition chunk_wf :: "Chunk \<Rightarrow> bool" where
  "chunk_wf ch =
     (channelData ch \<noteq> []
      \<and> (\<forall>c \<in> set (channelData ch). length c = length (hd (channelData ch))))"

text \<open>The number of channels of the first non-empty input of a worklet session.\<close>

definition first_input_channels :: "(Float32Array list \<times> real) list \<Rightarrow> nat" where
  "first_input_channels inputs =
     (case filter (\<lambda>inp. fst inp \<noteq> []) inputs of [] \<Rightarrow> 0 | inp # _ \<Rightarrow> length (fst inp))"

text \<open>The error events an engine has emitted.\<close>

definition is_ErrorEvent :: "engine_event \<Rightarrow> bool" where
  "is_ErrorEvent ev = (case ev of ErrorEvent e \<Rightarrow> True | _ \<Rightarrow> False)"

definition error_events :: "AudioEngine \<Rightarrow> engine_event list" where
  "error_events eng = filter is_ErrorEvent (eng_emitted eng)"

text \<open>The results a session delivered through \<open>onComplete\<close>, in order.\<close>

definition delivered :: "js_error + session_event list \<Rightarrow> RecordingBuffer list" where
  "delivered r =
     (case r of
        Inl e \<Rightarrow> []
      | Inr tr \<Rightarrow> concat (map (\<lambda>ev. case ev of OnComplete b \<Rightarrow> [b] | _ \<Rightarrow> []) tr))"

text \<open>The number of \<open>onComplete\<close> calls in the trace of a session that returned.\<close>

definition completions :: "js_error + session_event list \<Rightarrow> nat" where
  "completions r = (case r of Inl e \<Rightarrow> 0 | Inr tr \<Rightarrow> length (filter is_OnComplete tr))"

text \<open>
  The platform's invariant of an \<open>AudioBuffer\<close>: every channel array has the
  buffer's number of frames.
\<close>

definition ab_wf :: "AudioBuffer \<Rightarrow> bool" where
  "ab_wf b = list_all (\<lambda>ch. int (length ch) = ab_length b) (ab_channelData b)"

section \<open>Concrete scenarios\<close>

text \<open>
  A container-based recorder that was started, received one chunk and was stopped: its
  decode is in flight.
\<close>

definition blob_ex :: Blob where
  "blob_ex = \<lparr> blob_size = 10, blob_type = ''audio/webm'' \<rparr>"

definition mrw_in_flight :: MediaRecorderWrapper where
  "mrw_in_flight = mrw_stop (mrw_ondataavailable blob_ex (snd (mrw_start True 2 0 mrw_new)))"

definition buffer_ex :: AudioBuffer where
  "buffer_ex = \<lparr> ab_sampleRate = 44100, ab_length = 2, ab_channelData = [[0, 0], [0, 0]] \<rparr>"

text \<open>Two tracks with buffers, track 1 muted.\<close>

definition two_tracks :: TrackMap where
  "two_tracks = [(1, (new_track 1)\<lparr> audioBuffer := Some buffer_ex, isMuted := True \<rparr>),
                 (2, (new_track 2)\<lparr> audioBuffer := Some buffer_ex \<rparr>)]"

text \<open>One track with a buffer, not muted.\<close>

definition one_track :: TrackMap where
  "one_track = [(1, (new_track 1)\<lparr> audioBuffer := Some buffer_ex \<rparr>)]"

definition plat_ok :: Platform where
  "plat_ok = \<lparr> getUserMedia_ok = True, mediaRecorder_ok = True, worklet_ok = True \<rparr>"

text \<open>
  An engine that was initialised and is recording track 1, after a progress tick at half
  a second and one chunk received; the same engine after \<open>stopRecording\<close>; then after
  the platform's \<open>onstop\<close> event with a decode that fails, and with a decode that
  succeeds. The last one while it records track 2.
\<close>

definition eng_recording :: AudioEngine where
  "eng_recording =
     engine_ondataavailable blob_ex
       (returned (engine_onprogress (1 / 2)
          (snd (startRecording plat_ok 0 1 (initialize new_engine)))))"

definition eng_stopped :: AudioEngine where
  "eng_stopped = returned (stopRecording 2 eng_recording)"

definition eng_decode_failed :: AudioEngine where
  "eng_decode_failed = engine_onstop (\<lambda>_. None) eng_stopped"

definition eng_recorded :: AudioEngine where
  "eng_recorded = engine_onstop (\<lambda>_. Some buffer_ex) eng_stopped"

definition eng_overdub :: AudioEngine where
  "eng_overdub = snd (startRecording plat_ok 3 2 eng_recorded)"

text \<open>The freshly initialised engine after muting and then soloing track 1.\<close>

definition eng_muted_solo :: AudioEngine where
  "eng_muted_solo = soloTrack 1 True (muteTrack 1 True (initialize new_engine))"

text \<open>A decoder that succeeds and one that fails.\<close>

definition decode_ok :: "Blob list \<Rightarrow> AudioBuffer option" where
  "decode_ok chunks = Some buffer_ex"

definition decode_fail :: "Blob list \<Rightarrow> AudioBuffer option" where
  "decode_fail chunks = None"

text \<open>One block of 128 silent frames on two channels, at time 0.\<close>

definition block128 :: "Float32Array list \<times> real" where
  "block128 = ([replicate 128 0, replicate 128 0], 0)"

definition worklet_result_ex :: RecordingBuffer where
  "worklet_result_ex =
     \<lparr> rb_trackId = 0, rb_sampleRate = 44100, rb_numberOfChannels = 2, rb_length = 128,
       rb_channelData = [replicate 128 0, replicate 128 0] \<rparr>"

text \<open>What the block-callback recorder delivers when it is stopped at its start time.\<close>

definition spr_empty_result :: RecordingBuffer where
  "spr_empty_result =
     \<lparr> rb_trackId = 0, rb_sampleRate = 44100, rb_numberOfChannels = 2, rb_length = 0,
       rb_channelData = [[], []] \<rparr>"

text \<open>An empty blob, as the platform delivers it when nothing was encoded.\<close>

definition blob_empty :: Blob where
  "blob_empty = \<lparr> blob_size = 0, blob_type = [] \<rparr>"

text \<open>
  An engine that was initialised, started recording track 1 and was stopped at once: the
  platform delivers one empty blob and then its \<open>onstop\<close> event.
\<close>

definition mrw_no_chunks :: MediaRecorderWrapper where
  "mrw_no_chunks = mrw_ondataavailable blob_empty (mrw_stop (snd (mrw_start True 2 0 mrw_new)))"

definition eng_stopped_empty :: AudioEngine where
  "eng_stopped_empty =
     engine_ondataavailable blob_empty
       (returned (stopRecording 0 (snd (startRecording plat_ok 0 1 (initialize new_engine)))))"

definition eng_no_chunks :: AudioEngine where
  "eng_no_chunks = engine_onstop decode_ok eng_stopped_empty"

text \<open>
  The clock reading after one render quantum of 128 frames at 48000 Hz (the double
  nearest to 128/48000), a block of 128 frames on two channels, and what the
  block-callback recorder delivers for a session of that one block.
\<close>

definition quantum_time :: real where
  "quantum_time = binary64 (128 / 48000)"

definition tone_block :: "Float32Array list" where
  "tone_block = [replicate 128 (1 / 2), replicate 128 (1 / 4)]"

definition spr_quantum_result :: RecordingBuffer where
  "spr_quantum_result =
     \<lparr> rb_trackId = 0, rb_sampleRate = 48000, rb_numberOfChannels = 2, rb_length = 128,
       rb_channelData = [replicate 128 (1 / 2), replicate 128 (1 / 4)] \<rparr>"



section \<open>Level computation\<close>

lemma fold_levels_step:
  "fold levels_step data (p, s) =
     (fold max (map abs data) p, s + sum_list (map (\<lambda>x. \<bar>x\<bar> * \<bar>x\<bar>) data))"
  by (induction data arbitrary: p s) (simp_all add: levels_step_def Let_def max.commute)

lemma fold_max_abs:
  "fold max (map abs data) (0::real) = Max (insert 0 (abs ` set data))"
proof -
  have "Max (set (0 # map abs data)) = fold max (map abs data) (0::real)"
    by (rule Max.set_eq_fold)
  then show ?thesis by simp
qed

lemma Max_abs_nonempty:
  assumes "data \<noteq> []"
  shows "Max (insert (0::real) (abs ` set data)) = Max (abs ` set data)"
proof -
  from assms obtain x where x: "x \<in> set data" by (cases data) auto
  have fin: "finite (abs ` set data)" by simp
  have ne: "abs ` set data \<noteq> {}" using x by auto
  have "Max (insert 0 (abs ` set data)) = max 0 (Max (abs ` set data))"
    using fin ne by (rule Max_insert)
  moreover have "\<bar>x\<bar> \<le> Max (abs ` set data)" using fin x by (intro Max_ge) auto
  then have "0 \<le> Max (abs ` set data)" using abs_ge_zero [of x] by linarith
  ultimately show ?thesis by simp
qed

lemma calculateLevels_peak:
  "peak (calculateLevels data) = min 1 (Max (insert 0 (abs ` set data)))"
  by (simp add: calculateLevels_def Let_def fold_levels_step fold_max_abs)

lemma calculateLevels_rms:
  "data \<noteq> [] \<Longrightarrow>
   rms (calculateLevels data) =
     Some (min 1 (sqrt (sum_list (map (\<lambda>x. x * x) data) / real (length data))))"
  by (simp add: calculateLevels_def Let_def fold_levels_step)

text \<open>
  Claim C9. For every sample array the level computation returns the peak
  \<open>min(1, maximum absolute sample)\<close> and the rms \<open>min(1, sqrt(mean of squares))\<close>.
  The maximum is taken with the start value 0 of the loop; on a non-empty array it is the
  maximum absolute sample, and the rms is a number (on the empty array the quotient is
  \<open>0 / 0\<close>). A buffer of 1000 samples 0.5 gives peak 0.5 and rms 0.5; the buffer
  [1.5, -2.0, 0.5] gives the clamped peak 1.
\<close>

theorem C9_calculateLevels:
  "peak (calculateLevels data) = min 1 (Max (insert 0 (abs ` set data)))
   \<and> (data \<noteq> [] \<longrightarrow>
        peak (calculateLevels data) = min 1 (Max (abs ` set data))
      \<and> rms (calculateLevels data) =
          Some (min 1 (sqrt (sum_list (map (\<lambda>x. x * x) data) / real (length data)))))
   \<and> calculateLevels (replicate 1000 (1 / 2)) = \<lparr> peak = 1 / 2, rms = Some (1 / 2) \<rparr>
   \<and> peak (calculateLevels [3 / 2, - 2, 1 / 2]) = 1"
proof (intro conjI impI)
  show "peak (calculateLevels data) = min 1 (Max (insert 0 (abs ` set data)))"
    by (rule calculateLevels_peak)
next
  assume ne: "data \<noteq> []"
  show "peak (calculateLevels data) = min 1 (Max (abs ` set data))"
    by (simp add: calculateLevels_peak Max_abs_nonempty [OF ne])
  show "rms (calculateLevels data) =
          Some (min 1 (sqrt (sum_list (map (\<lambda>x. x * x) data) / real (length data))))"
    by (rule calculateLevels_rms [OF ne])
next
  let ?half = "replicate 1000 (1 / 2 :: real)"
  have ne: "?half \<noteq> []" by simp
  have p: "peak (calculateLevels ?half) = 1 / 2"
    by (simp add: calculateLevels_peak)
  have "sum_list (map (\<lambda>x. x * x) ?half) = 250"
    by (simp add: sum_list_replicate)
  then have "sqrt (sum_list (map (\<lambda>x. x * x) ?half) / real (length ?half)) = sqrt ((1 / 2) ^ 2)"
    by (simp add: power2_eq_square)
  also have "\<dots> = 1 / 2" by (rule real_sqrt_unique) simp_all
  finally have r: "rms (calculateLevels ?half) = Some (1 / 2)"
    using calculateLevels_rms [OF ne] by simp
  show "calculateLevels ?half = \<lparr> peak = 1 / 2, rms = Some (1 / 2) \<rparr>"
    using p r by (cases "calculateLevels ?half") simp
next
  show "peak (calculateLevels [3 / 2, - 2, 1 / 2]) = 1"
    by (simp add: calculateLevels_peak)
qed

theorem C9_calculateLevels_witness:
  "peak (calculateLevels [3 / 2, - 2, 1 / 2]) = 1
   \<and> rms (calculateLevels [3 / 2, - 2, 1 / 2]) = Some 1"
proof -
  have ne: "[3 / 2, - 2, 1 / 2 :: real] \<noteq> []" by simp
  have s: "1 \<le> sqrt (13 / 6 :: real)" by (rule real_sqrt_ge_one) simp
  from C9_calculateLevels [of "[3 / 2, - 2, 1 / 2]"] ne
  have "rms (calculateLevels [3 / 2, - 2, 1 / 2]) = Some (min 1 (sqrt (13 / 6)))"
       "peak (calculateLevels [3 / 2, - 2, 1 / 2]) = 1"
    by simp_all
  with s show ?thesis by (simp add: min_def)
qed

section \<open>Disposal of the container-based recorder\<close>

lemma mrw_in_flight_eq:
  "mrw_in_flight =
     \<lparr> mrw_mediaRecorder = Some Inactive, mrw_mediaStream = True,
       mrw_recordedChunks = [blob_ex], mrw_isRecording = False, mrw_isProcessing = True,
       mrw_recordingStartTime = 0, mrw_progressInterval = False, mrw_channelCount = 2,
       mrw_inputConnected = True, mrw_stopCalls = 1 \<rparr>"
  by (simp add: mrw_in_flight_def mrw_stop_def mrw_ondataavailable_def mrw_start_def
        mrw_new_def blob_ex_def Let_def)

text \<open>
  Claim C7. A \<open>dispose()\<close> of the container-based recorder while its processing flag
  is set does nothing: the recorded chunks are kept, the platform recorder is not
  stopped and no cleanup runs, so the whole state of the recorder is unchanged.
\<close>

theorem C7_dispose_while_processing:
  "mrw_isProcessing w \<Longrightarrow>
     mrw_dispose w = w
   \<and> mrw_recordedChunks (mrw_dispose w) = mrw_recordedChunks w
   \<and> mrw_stopCalls (mrw_dispose w) = mrw_stopCalls w
   \<and> mrw_mediaRecorder (mrw_dispose w) = mrw_mediaRecorder w
   \<and> mrw_mediaStream (mrw_dispose w) = mrw_mediaStream w
   \<and> mrw_inputConnected (mrw_dispose w) = mrw_inputConnected w"
  by (simp add: mrw_dispose_def)

theorem C7_dispose_while_processing_witness:
  "mrw_isProcessing mrw_in_flight
   \<and> mrw_dispose mrw_in_flight = mrw_in_flight
   \<and> mrw_recordedChunks (mrw_dispose mrw_in_flight) = [blob_ex]
   \<and> mrw_stopCalls (mrw_dispose mrw_in_flight) = 1"
proof -
  have p: "mrw_isProcessing mrw_in_flight" by (simp add: mrw_in_flight_eq)
  from C7_dispose_while_processing [OF p] p show ?thesis
    by (simp add: mrw_in_flight_eq)
qed

section \<open>Starting playback\<close>

lemma is_none_iff [simp]: "Option.is_none x \<longleftrightarrow> x = None"
  by (cases x) simp_all

lemma start_track_eq:
  "start_track nm e (ts, srcs, n) =
     (ts @ [set_playing nm e],
      srcs @ (if playable nm e then [fst e] else []),
      n + (if playable nm e then 1 else 0))"
  by (cases e) (auto simp: start_track_def set_playing_def playable_def Let_def split: option.splits)

lemma fold_start_track:
  "fold (start_track nm) tracks (ts, srcs, n) =
     (ts @ map (set_playing nm) tracks,
      srcs @ map fst (filter (playable nm) tracks),
      n + length (filter (playable nm) tracks))"
  by (induction tracks arbitrary: ts srcs n) (simp_all add: start_track_eq)

lemma PlaybackManager_start_eq:
  "PlaybackManager_start nm tracks now pm =
     (length (filter (playable nm) tracks),
      map (set_playing nm) tracks,
      \<lparr> pm_playbackSources = map fst (filter (playable nm) tracks), pm_playbackStartTime = now \<rparr>)"
  by (cases pm) (simp add: PlaybackManager_start_def pm_stop_def fold_start_track Let_def)

text \<open>
  Claim C8, as the code has it. For every track map, \<open>PlaybackManager.start\<close> starts
  a voice for exactly the tracks that have a stored buffer, are not muted and whose id has
  nodes in the node manager: each such track's \<open>isPlaying\<close> flag becomes true, every other
  entry is left as it was, and the returned count is the number of such tracks. Where
  every track id has nodes these are exactly the tracks with a buffer that are not muted.
\<close>

theorem C8_playback_start:
  "PlaybackManager_start nm tracks now pm =
     (length (filter (playable nm) tracks),
      map (set_playing nm) tracks,
      \<lparr> pm_playbackSources = map fst (filter (playable nm) tracks), pm_playbackStartTime = now \<rparr>)
   \<and> ((\<forall>e \<in> set tracks. trackNodes nm (fst e) \<noteq> None) \<longrightarrow>
        filter (playable nm) tracks =
          filter (\<lambda>e. audioBuffer (snd e) \<noteq> None \<and> \<not> isMuted (snd e)) tracks)"
proof (intro conjI impI)
  show "PlaybackManager_start nm tracks now pm =
     (length (filter (playable nm) tracks),
      map (set_playing nm) tracks,
      \<lparr> pm_playbackSources = map fst (filter (playable nm) tracks), pm_playbackStartTime = now \<rparr>)"
    by (rule PlaybackManager_start_eq)
next
  assume "\<forall>e \<in> set tracks. trackNodes nm (fst e) \<noteq> None"
  then show "filter (playable nm) tracks =
          filter (\<lambda>e. audioBuffer (snd e) \<noteq> None \<and> \<not> isMuted (snd e)) tracks"
    by (intro filter_cong) (auto simp: playable_def)
qed

text \<open>
  The scenario of the specification: two tracks with buffers, track 1 muted, nodes for
  the tracks 1 to 4. One voice; track 1 is not playing, track 2 is.
\<close>

theorem C8_playback_start_witness:
  "fst (PlaybackManager_start (createTrackNodes 4 nm_new) two_tracks 0 pm_new) = 1
   \<and> map (\<lambda>e. isPlaying (snd e))
         (fst (snd (PlaybackManager_start (createTrackNodes 4 nm_new) two_tracks 0 pm_new)))
       = [False, True]"
proof -
  have n: "\<forall>e \<in> set two_tracks. trackNodes (createTrackNodes 4 nm_new) (fst e) \<noteq> None"
    by code_simp
  have f: "filter (\<lambda>e. audioBuffer (snd e) \<noteq> None \<and> \<not> isMuted (snd e)) two_tracks
             = [(2, (new_track 2)\<lparr> audioBuffer := Some buffer_ex \<rparr>)]"
    by (simp add: two_tracks_def new_track_def)
  have p: "map (\<lambda>e. isPlaying (snd e))
             (map (set_playing (createTrackNodes 4 nm_new)) two_tracks) = [False, True]"
    by code_simp
  from C8_playback_start [of "createTrackNodes 4 nm_new" two_tracks 0 pm_new] n f p
  show ?thesis by simp
qed

text \<open>
  Against the claim as stated: a track with a buffer that is not muted, in a node manager
  without nodes, gets no voice.
\<close>

theorem C8_no_nodes_counterexample:
  "audioBuffer (snd (hd one_track)) \<noteq> None \<and> \<not> isMuted (snd (hd one_track))
   \<and> fst (PlaybackManager_start nm_new one_track 0 pm_new) = 0
   \<and> \<not> isPlaying (snd (hd (fst (snd (PlaybackManager_start nm_new one_track 0 pm_new)))))"
  by code_simp

text \<open>
  Claim C4, as the code has it. \<open>startPlayback\<close> has no guard on the engine state: on
  an initialised engine in the Recording state it starts a voice for every playable
  track and moves to Playing when there is at least one; the state stays Recording, with
  no voice, only when no track is playable.
\<close>

theorem C4_playback_while_recording:
  assumes "eng_state eng = RECORDING" "initialized eng"
  shows "\<exists>e'. startPlayback now eng = Inr e'
     \<and> voices e' = map fst (filter (playable (engine_nodes eng)) (eng_tracks eng))
     \<and> eng_tracks e' = map (set_playing (engine_nodes eng)) (eng_tracks eng)
     \<and> eng_state e' = (if filter (playable (engine_nodes eng)) (eng_tracks eng) = []
                       then RECORDING else PLAYING)"
  using assms
  by (auto simp: initialized_def startPlayback_def PlaybackManager_start_eq engine_nodes_def
        voices_def setState_def emit_def Let_def)

theorem C4_playback_while_recording_witness:
  "eng_state eng_overdub = RECORDING \<and> initialized eng_overdub
   \<and> map_sum id eng_tracks (startPlayback 4 eng_overdub)
       = Inr (map (set_playing (engine_nodes eng_overdub)) (eng_tracks eng_overdub))"
proof -
  have r: "eng_state eng_overdub = RECORDING" by code_simp
  have i: "initialized eng_overdub" by code_simp
  from C4_playback_while_recording [OF r i, of 4] obtain e' where
    "startPlayback 4 eng_overdub = Inr e'"
    "eng_tracks e' = map (set_playing (engine_nodes eng_overdub)) (eng_tracks eng_overdub)"
    by blast
  with r i show ?thesis by auto
qed

text \<open>
  Against the claim as stated: the engine that holds a recording on track 1 and is
  recording track 2 moves to Playing on \<open>startPlayback\<close>, with a voice on track 1.
\<close>

theorem C4_playing_counterexample:
  "eng_state eng_overdub = RECORDING
   \<and> map_sum id eng_state (startPlayback 4 eng_overdub) = Inr PLAYING
   \<and> map_sum id voices (startPlayback 4 eng_overdub) = Inr [1]"
  by code_simp

section \<open>Gain resolution\<close>


lemma map_of_tracks_modify:
  "map_of (tracks_modify k f ts) j = (if j = k then map_option f (map_of ts k) else map_of ts j)"
  by (induction ts) (auto simp: tracks_modify_def)

lemma keys_tracks_modify: "map fst (tracks_modify k f ts) = map fst ts"
  by (induction ts) (auto simp: tracks_modify_def)

lemma set_tracks_modify:
  "set (tracks_modify k f ts) = (\<lambda>e. if fst e = k then (fst e, f (snd e)) else e) ` set ts"
  by (auto simp: tracks_modify_def)

lemma eng_tracks_updateTrackGain [simp]: "eng_tracks (updateTrackGain k eng) = eng_tracks eng"
  by (simp add: updateTrackGain_def Let_def split: option.splits)

lemma eng_tracks_fold_update [simp]: "eng_tracks (fold updateTrackGain ks eng) = eng_tracks eng"
  by (induction ks arbitrary: eng) simp_all

lemma track_gain_setTrackGain:
  "map_option gainNode (trackNodes (setTrackGain k g nm) j) =
     (if j = k then map_option (\<lambda>_. max 0 (min 1 g)) (map_option gainNode (trackNodes nm k))
      else map_option gainNode (trackNodes nm j))"
  by (auto simp: setTrackGain_def split: option.splits)

lemma track_gain_updateTrackGain:
  "track_gain (updateTrackGain k eng) j =
     (if j = k
      then (case map_of (eng_tracks eng) k of
              None \<Rightarrow> track_gain eng k
            | Some t \<Rightarrow> map_option (\<lambda>_. max 0 (min 1 (spec_effective_gain (eng_tracks eng) t)))
                          (track_gain eng k))
      else track_gain eng j)"
  by (auto simp: updateTrackGain_def track_gain_def Let_def track_gain_setTrackGain
        spec_effective_gain_def split: option.splits)

lemma track_gain_fold_update:
  "track_gain (fold updateTrackGain ks eng) j =
     (if j \<in> set ks
      then (case map_of (eng_tracks eng) j of
              None \<Rightarrow> track_gain eng j
            | Some t \<Rightarrow> map_option (\<lambda>_. max 0 (min 1 (spec_effective_gain (eng_tracks eng) t)))
                          (track_gain eng j))
      else track_gain eng j)"
proof (induction ks arbitrary: eng)
  case Nil
  then show ?case by simp
next
  case (Cons k ks)
  show ?case
    by (simp add: Cons.IH track_gain_updateTrackGain option.map_comp comp_def
          split: option.splits)
qed


lemma track_gain_tracks_upd [simp]: "track_gain (eng\<lparr> eng_tracks := ts \<rparr>) j = track_gain eng j"
  by (simp add: track_gain_def)

lemma clamp_spec:
  "0 \<le> volume t \<Longrightarrow> volume t \<le> 1 \<Longrightarrow>
     max 0 (min 1 (spec_effective_gain ts t)) = spec_effective_gain ts t"
  by (simp add: spec_effective_gain_def)

lemma in_set_map_of:
  "distinct (map fst ts) \<Longrightarrow> e \<in> set ts \<Longrightarrow> map_of ts (fst e) = Some (snd e)"
  by (cases e) simp

lemma has_solo_modify:
  "(\<And>t. isSolo (f t) = isSolo t) \<Longrightarrow>
     list_ex (\<lambda>e. isSolo (snd e)) (tracks_modify k f ts) = list_ex (\<lambda>e. isSolo (snd e)) ts"
  by (induction ts) (auto simp: tracks_modify_def)

lemma spec_gain_modify_other:
  "(\<And>t. isSolo (f t) = isSolo t) \<Longrightarrow>
     spec_effective_gain (tracks_modify k f ts) t = spec_effective_gain ts t"
  by (simp add: spec_effective_gain_def has_solo_modify)

text \<open>The state after a write to one track followed by the gain update of some ids.\<close>

lemma resolved_after:
  assumes wf: "tracks_wf eng"
    and tr: "eng_tracks eng' = tracks_modify k f (eng_tracks eng)"
    and vol: "\<And>t. 0 \<le> volume t \<Longrightarrow> volume t \<le> 1 \<Longrightarrow> 0 \<le> volume (f t) \<and> volume (f t) \<le> 1"
    and gain: "\<And>j. track_gain eng' j =
        (if j \<in> U
         then (case map_of (eng_tracks eng') j of
                 None \<Rightarrow> track_gain eng j
               | Some t \<Rightarrow> map_option (\<lambda>_. max 0 (min 1 (spec_effective_gain (eng_tracks eng') t)))
                             (track_gain eng j))
         else track_gain eng j)"
    and rest: "\<And>e. e \<in> set (eng_tracks eng) \<Longrightarrow> fst e \<notin> U \<Longrightarrow>
        track_gain eng (fst e) =
          Some (spec_effective_gain (eng_tracks eng') (if fst e = k then f (snd e) else snd e))"
  shows "tracks_wf eng' \<and> gains_resolved eng'"
proof -
  let ?ts = "eng_tracks eng" and ?ts' = "eng_tracks eng'"
  from wf have d: "distinct (map fst ?ts)"
    and v: "\<And>e. e \<in> set ?ts \<Longrightarrow> 0 \<le> volume (snd e) \<and> volume (snd e) \<le> 1"
    and n: "\<And>e. e \<in> set ?ts \<Longrightarrow> track_gain eng (fst e) \<noteq> None"
    by (auto simp: tracks_wf_def list_all_iff)
  have d': "distinct (map fst ?ts')" using d by (simp add: tr keys_tracks_modify)
  have n': "track_gain eng' j \<noteq> None" if "track_gain eng j \<noteq> None" for j
    using that by (auto simp: gain split: option.splits)
  {
    fix e' assume e': "e' \<in> set ?ts'"
    then have "e' \<in> (\<lambda>e. if fst e = k then (fst e, f (snd e)) else e) ` set ?ts"
      by (simp add: tr set_tracks_modify)
    then obtain e where e: "e \<in> set ?ts"
      and e'_eq: "e' = (if fst e = k then (fst e, f (snd e)) else e)"
      by (rule imageE)
    have fst_eq: "fst e' = fst e" by (simp add: e'_eq)
    have v': "0 \<le> volume (snd e') \<and> volume (snd e') \<le> 1"
      using v [OF e] vol by (auto simp: e'_eq)
    have m: "map_of ?ts' (fst e') = Some (snd e')" by (rule in_set_map_of [OF d' e'])
    have g: "track_gain eng' (fst e') = Some (spec_effective_gain ?ts' (snd e'))"
    proof (cases "fst e \<in> U")
      case True
      with n [OF e] m v' show ?thesis
        by (auto simp: gain fst_eq clamp_spec)
    next
      case False
      from rest [OF e False] have "track_gain eng (fst e) = Some (spec_effective_gain ?ts' (snd e'))"
        by (simp add: e'_eq)
      with False show ?thesis by (simp add: gain fst_eq)
    qed
    have "0 \<le> volume (snd e') \<and> volume (snd e') \<le> 1 \<and> track_gain eng' (fst e') \<noteq> None
          \<and> track_gain eng' (fst e') = Some (spec_effective_gain ?ts' (snd e'))"
      using v' g by simp
  }
  then show ?thesis using d' by (auto simp: tracks_wf_def gains_resolved_def list_all_iff)
qed


lemma resolvedD:
  "gains_resolved eng \<Longrightarrow> e \<in> set (eng_tracks eng) \<Longrightarrow>
     track_gain eng (fst e) = Some (spec_effective_gain (eng_tracks eng) (snd e))"
  by (auto simp: gains_resolved_def list_all_iff)

lemma setTrackVolume_resolved:
  assumes wf: "tracks_wf eng" and res: "gains_resolved eng"
  shows "tracks_wf (setTrackVolume k v eng) \<and> gains_resolved (setTrackVolume k v eng)"
proof (cases "map_of (eng_tracks eng) k")
  case None
  with wf res show ?thesis by (simp add: setTrackVolume_def)
next
  case (Some t)
  show ?thesis
  proof (cases "eng_nodeManager eng")
    case None
    with wf res Some show ?thesis by (simp add: setTrackVolume_def)
  next
    case nm: (Some nm)
    let ?f = "\<lambda>t. t\<lparr> volume := max 0 (min 1 v) \<rparr>"
    have eq: "setTrackVolume k v eng =
        updateTrackGain k (eng\<lparr> eng_tracks := tracks_modify k ?f (eng_tracks eng) \<rparr>)"
      using Some nm by (simp add: setTrackVolume_def)
    show ?thesis
    proof (rule resolved_after [OF wf, where k = k and f = ?f and U = "{k}"])
      show "eng_tracks (setTrackVolume k v eng) = tracks_modify k ?f (eng_tracks eng)"
        by (simp add: eq)
    next
      fix t :: Track assume "0 \<le> volume t" "volume t \<le> 1"
      show "0 \<le> volume (?f t) \<and> volume (?f t) \<le> 1" by simp
    next
      fix j
      show "track_gain (setTrackVolume k v eng) j =
        (if j \<in> {k}
         then (case map_of (eng_tracks (setTrackVolume k v eng)) j of
                 None \<Rightarrow> track_gain eng j
               | Some t \<Rightarrow> map_option (\<lambda>_. max 0 (min 1 (spec_effective_gain (eng_tracks (setTrackVolume k v eng)) t)))
                             (track_gain eng j))
         else track_gain eng j)"
        by (simp add: eq track_gain_updateTrackGain cong: option.case_cong)
    next
      fix e assume e: "e \<in> set (eng_tracks eng)" and "fst e \<notin> {k}"
      then have nk: "fst e \<noteq> k" by simp
      show "track_gain eng (fst e) =
          Some (spec_effective_gain (eng_tracks (setTrackVolume k v eng))
                  (if fst e = k then ?f (snd e) else snd e))"
        using resolvedD [OF res e] nk by (simp add: eq spec_gain_modify_other)
    qed
  qed
qed


lemma muteTrack_resolved:
  assumes wf: "tracks_wf eng" and res: "gains_resolved eng"
  shows "tracks_wf (muteTrack k m eng) \<and> gains_resolved (muteTrack k m eng)"
proof (cases "map_of (eng_tracks eng) k")
  case None
  with wf res show ?thesis by (simp add: muteTrack_def)
next
  case (Some t)
  let ?f = "\<lambda>t. t\<lparr> isMuted := m \<rparr>"
  have eq: "muteTrack k m eng =
      updateTrackGain k (eng\<lparr> eng_tracks := tracks_modify k ?f (eng_tracks eng) \<rparr>)"
    using Some by (simp add: muteTrack_def)
  show ?thesis
  proof (rule resolved_after [OF wf, where k = k and f = ?f and U = "{k}"])
    show "eng_tracks (muteTrack k m eng) = tracks_modify k ?f (eng_tracks eng)"
      by (simp add: eq)
  next
    fix t :: Track assume "0 \<le> volume t" "volume t \<le> 1"
    then show "0 \<le> volume (?f t) \<and> volume (?f t) \<le> 1" by simp
  next
    fix j
    show "track_gain (muteTrack k m eng) j =
      (if j \<in> {k}
       then (case map_of (eng_tracks (muteTrack k m eng)) j of
               None \<Rightarrow> track_gain eng j
             | Some t \<Rightarrow> map_option (\<lambda>_. max 0 (min 1 (spec_effective_gain (eng_tracks (muteTrack k m eng)) t)))
                           (track_gain eng j))
       else track_gain eng j)"
      by (simp add: eq track_gain_updateTrackGain cong: option.case_cong)
  next
    fix e assume e: "e \<in> set (eng_tracks eng)" and "fst e \<notin> {k}"
    then have nk: "fst e \<noteq> k" by simp
    show "track_gain eng (fst e) =
        Some (spec_effective_gain (eng_tracks (muteTrack k m eng))
                (if fst e = k then ?f (snd e) else snd e))"
      using resolvedD [OF res e] nk by (simp add: eq spec_gain_modify_other)
  qed
qed

lemma track_gain_setTrackPan:
  "map_option gainNode (trackNodes (setTrackPan k p nm) j) = map_option gainNode (trackNodes nm j)"
  by (auto simp: setTrackPan_def split: option.splits)

lemma setTrackPanE_resolved:
  assumes wf: "tracks_wf eng" and res: "gains_resolved eng"
  shows "tracks_wf (setTrackPanE k p eng) \<and> gains_resolved (setTrackPanE k p eng)"
proof (cases "map_of (eng_tracks eng) k")
  case None
  with wf res show ?thesis by (simp add: setTrackPanE_def)
next
  case (Some t)
  show ?thesis
  proof (cases "eng_nodeManager eng")
    case None
    with wf res Some show ?thesis by (simp add: setTrackPanE_def)
  next
    case nm: (Some nm)
    let ?f = "\<lambda>t. t\<lparr> pan := max (- 1) (min 1 p) \<rparr>"
    have eq: "setTrackPanE k p eng =
        eng\<lparr> eng_tracks := tracks_modify k ?f (eng_tracks eng),
             eng_nodeManager := Some (setTrackPan k (max (- 1) (min 1 p)) nm) \<rparr>"
      using Some nm by (simp add: setTrackPanE_def)
    have tg: "track_gain (setTrackPanE k p eng) j = track_gain eng j" for j
      by (simp add: eq track_gain_def nm track_gain_setTrackPan)
    show ?thesis
    proof (rule resolved_after [OF wf, where k = k and f = ?f and U = "{}"])
      show "eng_tracks (setTrackPanE k p eng) = tracks_modify k ?f (eng_tracks eng)"
        by (simp add: eq)
    next
      fix t :: Track assume "0 \<le> volume t" "volume t \<le> 1"
      then show "0 \<le> volume (?f t) \<and> volume (?f t) \<le> 1" by simp
    next
      fix j
      show "track_gain (setTrackPanE k p eng) j =
        (if j \<in> {}
         then (case map_of (eng_tracks (setTrackPanE k p eng)) j of
                 None \<Rightarrow> track_gain eng j
               | Some t \<Rightarrow> map_option (\<lambda>_. max 0 (min 1 (spec_effective_gain (eng_tracks (setTrackPanE k p eng)) t)))
                             (track_gain eng j))
         else track_gain eng j)"
        by (simp add: tg)
    next
      fix e assume e: "e \<in> set (eng_tracks eng)"
      have "spec_effective_gain (eng_tracks (setTrackPanE k p eng)) (?f (snd e))
              = spec_effective_gain (eng_tracks eng) (snd e)"
        by (simp add: eq spec_effective_gain_def has_solo_modify)
      moreover have "spec_effective_gain (eng_tracks (setTrackPanE k p eng)) (snd e)
              = spec_effective_gain (eng_tracks eng) (snd e)"
        by (simp add: eq spec_gain_modify_other)
      ultimately show "track_gain eng (fst e) =
          Some (spec_effective_gain (eng_tracks (setTrackPanE k p eng))
                  (if fst e = k then ?f (snd e) else snd e))"
        using resolvedD [OF res e] by simp
    qed
  qed
qed

lemma soloTrack_eq:
  "map_of (eng_tracks eng) k = Some t \<Longrightarrow>
     soloTrack k b eng =
       fold updateTrackGain (map fst (eng_tracks eng))
         (eng\<lparr> eng_tracks := tracks_modify k (\<lambda>t. t\<lparr> isSolo := b \<rparr>) (eng_tracks eng) \<rparr>)"
  by (simp add: soloTrack_def)

lemma soloTrack_resolves:
  assumes wf: "tracks_wf eng" and k: "map_of (eng_tracks eng) k = Some t"
  shows "tracks_wf (soloTrack k b eng) \<and> gains_resolved (soloTrack k b eng)"
proof -
  let ?f = "\<lambda>t. t\<lparr> isSolo := b \<rparr>"
  note eq = soloTrack_eq [OF k, of b]
  show ?thesis
  proof (rule resolved_after [OF wf, where k = k and f = ?f and U = "set (map fst (eng_tracks eng))"])
    show "eng_tracks (soloTrack k b eng) = tracks_modify k ?f (eng_tracks eng)"
      by (simp add: eq)
  next
    fix t :: Track assume "0 \<le> volume t" "volume t \<le> 1"
    then show "0 \<le> volume (?f t) \<and> volume (?f t) \<le> 1" by simp
  next
    fix j
    show "track_gain (soloTrack k b eng) j =
      (if j \<in> set (map fst (eng_tracks eng))
       then (case map_of (eng_tracks (soloTrack k b eng)) j of
               None \<Rightarrow> track_gain eng j
             | Some t \<Rightarrow> map_option (\<lambda>_. max 0 (min 1 (spec_effective_gain (eng_tracks (soloTrack k b eng)) t)))
                           (track_gain eng j))
       else track_gain eng j)"
      by (simp add: eq track_gain_fold_update cong: option.case_cong)
  next
    fix e assume "e \<in> set (eng_tracks eng)" "fst e \<notin> set (map fst (eng_tracks eng))"
    then have False by auto
    then show "track_gain eng (fst e) =
        Some (spec_effective_gain (eng_tracks (soloTrack k b eng))
                (if fst e = k then ?f (snd e) else snd e))" ..
  qed
qed

lemma soloTrack_resolved:
  assumes wf: "tracks_wf eng" and res: "gains_resolved eng"
  shows "tracks_wf (soloTrack k b eng) \<and> gains_resolved (soloTrack k b eng)"
proof (cases "map_of (eng_tracks eng) k")
  case None
  with wf res show ?thesis by (simp add: soloTrack_def)
next
  case (Some t)
  then show ?thesis by (rule soloTrack_resolves [OF wf])
qed

lemma control_resolved:
  "tracks_wf eng \<Longrightarrow> gains_resolved eng \<Longrightarrow>
     tracks_wf (control op eng) \<and> gains_resolved (control op eng)"
  by (cases op)
     (simp_all add: control_def setTrackVolume_resolved setTrackPanE_resolved
        muteTrack_resolved soloTrack_resolved)

lemma initial_resolved:
  "tracks_wf (initialize new_engine) \<and> gains_resolved (initialize new_engine)"
  by code_simp


lemma modified_in_set:
  "e \<in> set ts \<Longrightarrow> (if fst e = k then (fst e, f (snd e)) else e) \<in> set (tracks_modify k f ts)"
  by (auto simp: set_tracks_modify)

lemma solo_one:
  assumes wf: "tracks_wf eng" and it: "(i, t) \<in> set (eng_tracks eng)"
    and others: "\<forall>e \<in> set (eng_tracks eng). fst e \<noteq> i \<longrightarrow> \<not> isSolo (snd e)"
  shows "track_gain (soloTrack i True eng) i = Some (if isMuted t then 0 else volume t)"
    and "\<forall>e \<in> set (eng_tracks eng). fst e \<noteq> i \<longrightarrow> track_gain (soloTrack i True eng) (fst e) = Some 0"
proof -
  let ?f = "\<lambda>t. t\<lparr> isSolo := True \<rparr>"
  let ?e' = "soloTrack i True eng"
  from wf have d: "distinct (map fst (eng_tracks eng))" by (simp add: tracks_wf_def)
  from in_set_map_of [OF d it] have m: "map_of (eng_tracks eng) i = Some t" by simp
  from soloTrack_resolves [OF wf m] have res: "gains_resolved ?e'" by simp
  have ts': "eng_tracks ?e' = tracks_modify i ?f (eng_tracks eng)"
    by (simp add: soloTrack_eq [OF m])
  have it': "(i, ?f t) \<in> set (eng_tracks ?e')"
    using modified_in_set [OF it, of i ?f] by (simp add: ts')
  then have hs: "list_ex (\<lambda>e. isSolo (snd e)) (eng_tracks ?e')"
    unfolding list_ex_iff by (rule bexI [rotated]) simp
  from resolvedD [OF res it']
  show "track_gain ?e' i = Some (if isMuted t then 0 else volume t)"
    by (simp add: spec_effective_gain_def)
  show "\<forall>e \<in> set (eng_tracks eng). fst e \<noteq> i \<longrightarrow> track_gain ?e' (fst e) = Some 0"
  proof (intro ballI impI)
    fix e assume e: "e \<in> set (eng_tracks eng)" and ne: "fst e \<noteq> i"
    from modified_in_set [OF e, of i ?f] ne have "e \<in> set (eng_tracks ?e')" by (simp add: ts')
    from resolvedD [OF res this] others e ne hs
    show "track_gain ?e' (fst e) = Some 0" by (simp add: spec_effective_gain_def)
  qed
qed

lemma unsolo_one:
  assumes wf: "tracks_wf eng" and it: "(i, t) \<in> set (eng_tracks eng)"
    and others: "\<forall>e \<in> set (eng_tracks eng). fst e \<noteq> i \<longrightarrow> \<not> isSolo (snd e)"
  shows "\<forall>e \<in> set (eng_tracks eng).
           track_gain (soloTrack i False eng) (fst e) = Some (if isMuted (snd e) then 0 else volume (snd e))"
proof
  let ?f = "\<lambda>t. t\<lparr> isSolo := False \<rparr>"
  let ?e' = "soloTrack i False eng"
  fix e assume e: "e \<in> set (eng_tracks eng)"
  from wf have d: "distinct (map fst (eng_tracks eng))" by (simp add: tracks_wf_def)
  from in_set_map_of [OF d it] have m: "map_of (eng_tracks eng) i = Some t" by simp
  from soloTrack_resolves [OF wf m] have res: "gains_resolved ?e'" by simp
  have ts': "eng_tracks ?e' = tracks_modify i ?f (eng_tracks eng)"
    by (simp add: soloTrack_eq [OF m])
  have ns: "\<not> list_ex (\<lambda>e. isSolo (snd e)) (eng_tracks ?e')"
    using others by (auto simp: ts' set_tracks_modify list_ex_iff)
  let ?m = "if fst e = i then (fst e, ?f (snd e)) else e"
  from modified_in_set [OF e, of i ?f] have "?m \<in> set (eng_tracks ?e')" by (simp add: ts')
  from resolvedD [OF res this] ns
  show "track_gain ?e' (fst e) = Some (if isMuted (snd e) then 0 else volume (snd e))"
    by (simp add: spec_effective_gain_def split: if_splits)
qed

lemma controls_resolved:
  "tracks_wf eng \<Longrightarrow> gains_resolved eng \<Longrightarrow>
     tracks_wf (fold control ops eng) \<and> gains_resolved (fold control ops eng)"
proof (induction ops arbitrary: eng)
  case Nil
  then show ?case by simp
next
  case (Cons op ops)
  from control_resolved [OF Cons.prems] Cons.IH [of "control op eng"] show ?case by simp
qed

text \<open>
  Claim C5, as the code has it. The effective gain of a track is 0 if the track is
  muted, else 0 if some track is soloed and this track is not, else the track's volume.
  The engine initialised right after its construction has every gain node at the
  effective gain of its track, and so has every engine reached from it by mute, solo,
  volume and pan operations. In general, on an engine whose tracks have distinct ids,
  volumes within 0 and 1 and a gain node each, and whose gain nodes carry the effective
  gains, each such operation leaves them so. On an engine whose tracks have distinct
  ids, volumes within 0 and 1 and a gain node each, whatever its gains, soloing the only
  soloed track yields the gain 0 for all others, and for the soloed track its volume
  when it is not muted and 0 when it is; unsoloing it gives every track the gain 0 if
  muted, else its volume.
\<close>

theorem C5_effective_gain:
  "tracks_wf (fold control ops (initialize new_engine))
   \<and> gains_resolved (fold control ops (initialize new_engine))
   \<and> (tracks_wf eng \<and> gains_resolved eng \<longrightarrow>
        tracks_wf (control op eng) \<and> gains_resolved (control op eng))
   \<and> (tracks_wf eng \<and> (i, t) \<in> set (eng_tracks eng)
        \<and> (\<forall>e \<in> set (eng_tracks eng). fst e \<noteq> i \<longrightarrow> \<not> isSolo (snd e)) \<longrightarrow>
          track_gain (soloTrack i True eng) i = Some (if isMuted t then 0 else volume t)
        \<and> (\<forall>e \<in> set (eng_tracks eng). fst e \<noteq> i \<longrightarrow>
              track_gain (soloTrack i True eng) (fst e) = Some 0)
        \<and> (\<forall>e \<in> set (eng_tracks eng).
              track_gain (soloTrack i False eng) (fst e) =
                Some (if isMuted (snd e) then 0 else volume (snd e))))"
proof -
  from initial_resolved have
    "tracks_wf (fold control ops (initialize new_engine))
     \<and> gains_resolved (fold control ops (initialize new_engine))"
    by (intro controls_resolved) simp_all
  with control_resolved [of eng op] solo_one [of eng i t] unsolo_one [of eng i t]
  show ?thesis by blast
qed

theorem C5_effective_gain_witness:
  "gains_resolved (fold control [MuteTrack 1 True, SoloTrack 1 True, SetTrackVolume 2 (1 / 2)]
                     (initialize new_engine))
   \<and> gains_resolved (control (MuteTrack 3 True) (initialize new_engine))
   \<and> track_gain (soloTrack 2 True (initialize new_engine)) 2 = Some 1
   \<and> track_gain (soloTrack 2 True (initialize new_engine)) 1 = Some 0"
proof -
  let ?e = "initialize new_engine"
  have h1: "tracks_wf ?e \<and> gains_resolved ?e" by code_simp
  have h2: "(2, new_track 2) \<in> set (eng_tracks ?e)" by code_simp
  have h3: "\<forall>e \<in> set (eng_tracks ?e). fst e \<noteq> 2 \<longrightarrow> \<not> isSolo (snd e)" by code_simp
  have h4: "(1, new_track 1) \<in> set (eng_tracks ?e)" by code_simp
  have v: "\<not> isMuted (new_track 2)" "volume (new_track 2) = 1" by (simp_all add: new_track_def)
  note T = C5_effective_gain [of "[MuteTrack 1 True, SoloTrack 1 True, SetTrackVolume 2 (1 / 2)]"
      ?e "MuteTrack 3 True" 2 "new_track 2"]
  from T have r: "gains_resolved (fold control [MuteTrack 1 True, SoloTrack 1 True, SetTrackVolume 2 (1 / 2)] ?e)"
    by blast
  from T h1 h2 h3
  have a: "gains_resolved (control (MuteTrack 3 True) ?e)"
    and b: "track_gain (soloTrack 2 True ?e) 2 = Some (if isMuted (new_track 2) then 0 else volume (new_track 2))"
    and c: "\<forall>e \<in> set (eng_tracks ?e). fst e \<noteq> 2 \<longrightarrow> track_gain (soloTrack 2 True ?e) (fst e) = Some 0"
    by blast+
  from c h4 have "track_gain (soloTrack 2 True ?e) 1 = Some 0" by fastforce
  with r a b v show ?thesis by simp
qed

text \<open>
  Against the claim as stated: track 1 is muted and then soloed. It is the only soloed
  track and its volume is 1, but its gain is 0.
\<close>

theorem C5_muted_solo_counterexample:
  "solo_flags eng_muted_solo = [True, False, False, False]
   \<and> map_option volume (map_of (eng_tracks eng_muted_solo) 1) = Some 1
   \<and> track_gain eng_muted_solo 1 = Some 0"
  by code_simp

section \<open>The recorder reference as the guard of startRecording\<close>


lemma nodeManager_updateTrackGain:
  "eng_nodeManager (updateTrackGain k eng) = None \<longleftrightarrow> eng_nodeManager eng = None"
  by (auto simp: updateTrackGain_def Let_def split: option.splits)

lemma other_updateTrackGain [simp]:
  "eng_recorder (updateTrackGain k eng) = eng_recorder eng"
  "eng_audioContext (updateTrackGain k eng) = eng_audioContext eng"
  by (auto simp: updateTrackGain_def Let_def split: option.splits)

lemma live_updateTrackGain [simp]: "live_async (updateTrackGain k eng) = live_async eng"
  by (simp add: live_async_def is_async_recorder_def nodeManager_updateTrackGain)

lemma live_fold_updateTrackGain [simp]: "live_async (fold updateTrackGain ks eng) = live_async eng"
  by (induction ks arbitrary: eng) simp_all

lemma live_tracks_upd [simp]: "live_async (eng\<lparr> eng_tracks := ts \<rparr>) = live_async eng"
  by (simp add: live_async_def is_async_recorder_def)


lemma live_setTrackPanE: "live_async eng \<Longrightarrow> live_async (setTrackPanE k p eng)"
  by (auto simp: setTrackPanE_def live_async_def is_async_recorder_def split: option.splits)

lemma live_control: "live_async eng \<Longrightarrow> live_async (control c eng)"
  by (cases c)
     (simp_all add: control_def setTrackVolume_def muteTrack_def soloTrack_def live_setTrackPanE
        split: option.splits)

lemma startRecording_rejected:
  "live_async eng \<Longrightarrow> startRecording plat t i eng = (Some RecordingInProgress, eng)"
  by (auto simp: live_async_def is_async_recorder_def startRecording_def split: option.splits)

lemma stopRecording_MRW:
  "eng_recorder eng = Some (MRW w) \<Longrightarrow>
     stopRecording now eng =
       Inr (setState IDLE
              (eng\<lparr> eng_recorder := Some (MRW (mrw_stop w)),
                    eng_tracks := tracks_modify (eng_currentRecordingTrack eng)
                                    (\<lambda>t. t\<lparr> isRecording := False \<rparr>) (eng_tracks eng) \<rparr>))"
  by (simp add: stopRecording_def recorder_stop_def)

lemma stopRecording_ABR:
  "eng_recorder eng = Some (ABR r) \<Longrightarrow>
     stopRecording now eng =
       Inr (setState IDLE
              (eng\<lparr> eng_recorder := Some (ABR (fst (abr_stop r))),
                    eng_tracks := tracks_modify (eng_currentRecordingTrack eng)
                                    (\<lambda>t. t\<lparr> isRecording := False \<rparr>) (eng_tracks eng) \<rparr>))"
  by (simp add: stopRecording_def recorder_stop_def)

lemma stopRecording_async:
  assumes "live_async eng"
  shows "\<exists>e1. stopRecording now eng = Inr e1 \<and> eng_state e1 = IDLE \<and> live_async e1"
proof -
  from assms consider w where "eng_recorder eng = Some (MRW w)"
    | r where "eng_recorder eng = Some (ABR r)"
    by (auto simp: live_async_def is_async_recorder_def split: option.splits Recorder.splits)
  then show ?thesis
  proof cases
    case 1
    with assms show ?thesis
      by (simp add: stopRecording_MRW live_async_def is_async_recorder_def setState_def emit_def)
  next
    case 2
    with assms show ?thesis
      by (simp add: stopRecording_ABR live_async_def is_async_recorder_def setState_def emit_def)
  qed
qed

lemma live_startPlayback:
  "live_async eng \<Longrightarrow> startPlayback t eng = Inr e1 \<Longrightarrow> live_async e1"
  by (auto simp: live_async_def is_async_recorder_def startPlayback_def setState_def emit_def
        Let_def split: option.splits if_splits)

lemma live_stopPlayback: "live_async eng \<Longrightarrow> live_async (stopPlayback eng)"
  by (auto simp: live_async_def is_async_recorder_def stopPlayback_def setState_def emit_def
        split: option.splits)

lemma live_ondataavailable: "live_async eng \<Longrightarrow> live_async (engine_ondataavailable d eng)"
  by (auto simp: live_async_def is_async_recorder_def engine_ondataavailable_def
        split: option.splits Recorder.splits)

lemma live_emit [simp]: "live_async (emit ev eng) = live_async eng"
  by (simp add: live_async_def is_async_recorder_def emit_def)

lemma maxRecordingTime_emit [simp]:
  "eng_maxRecordingTime (emit ev eng) = eng_maxRecordingTime eng"
  by (simp add: emit_def)

lemma live_onprogress:
  assumes "live_async eng"
  shows "\<exists>e1. engine_onprogress t eng = Inr e1 \<and> live_async e1"
proof -
  have cb: "\<exists>e1. progress_callback t time eng = Inr e1 \<and> live_async e1" for time
  proof (cases "time \<ge> eng_maxRecordingTime eng")
    case True
    from assms have "live_async (emit (RecordingProgress (eng_callbackTrack eng) time) eng)"
      by simp
    from stopRecording_async [OF this, of t] obtain e1 where
      "stopRecording t (emit (RecordingProgress (eng_callbackTrack eng) time) eng) = Inr e1"
      "live_async e1" by blast
    with True show ?thesis by (simp add: progress_callback_def Let_def)
  next
    case False
    with assms show ?thesis by (simp add: progress_callback_def Let_def)
  qed
  from assms consider w where "eng_recorder eng = Some (MRW w)"
    | r where "eng_recorder eng = Some (ABR r)"
    by (auto simp: live_async_def is_async_recorder_def split: option.splits Recorder.splits)
  then show ?thesis
  proof cases
    case 1
    with assms cb show ?thesis by (simp add: engine_onprogress_def)
  next
    case 2
    with assms cb show ?thesis by (simp add: engine_onprogress_def)
  qed
qed

lemma live_apply_op:
  assumes "live_async eng"
  shows "\<exists>e1. apply_op op eng = Some e1 \<and> live_async e1"
proof (cases op)
  case (Control c)
  with assms show ?thesis by (simp add: apply_op_def live_control)
next
  case (StartRecording plat t i)
  with assms show ?thesis by (simp add: apply_op_def startRecording_rejected)
next
  case (StopRecording t)
  from stopRecording_async [OF assms, of t] StopRecording show ?thesis
    by (auto simp: apply_op_def)
next
  case (StartPlayback t)
  with assms live_startPlayback [OF assms, of t] show ?thesis
    by (cases "startPlayback t eng") (auto simp: apply_op_def)
next
  case StopPlayback
  with assms show ?thesis by (simp add: apply_op_def live_stopPlayback)
next
  case (DataAvailable d)
  with assms show ?thesis by (simp add: apply_op_def live_ondataavailable)
next
  case (Progress t)
  from live_onprogress [OF assms, of t] Progress show ?thesis
    by (auto simp: apply_op_def)
qed

lemma live_run_ops:
  "live_async eng \<Longrightarrow> \<exists>e2. run_ops ops eng = Some e2 \<and> live_async e2"
proof (induction ops arbitrary: eng)
  case Nil
  then show ?case by simp
next
  case (Cons op ops)
  from live_apply_op [OF Cons.prems, of op] obtain e1 where
    "apply_op op eng = Some e1" "live_async e1" by blast
  with Cons.IH [of e1] show ?case by simp
qed

lemma processRecordingBuffer_clears:
  assumes "eng_audioContext eng" "map_of (eng_tracks eng) i = Some tr"
    "rb_numberOfChannels b \<le> length (rb_channelData b)"
  shows "\<exists>e'. processRecordingBuffer i b eng = Inr e' \<and> eng_recorder e' = None
           \<and> eng_audioContext e' \<and> (eng_nodeManager e' = None \<longleftrightarrow> eng_nodeManager eng = None)"
  using assms
  by (auto simp: processRecordingBuffer_def createAudioBuffer_def cleanup_def emit_def Let_def
        split: option.splits)

lemma startRecording_not_in_progress:
  "eng_recorder eng = None \<Longrightarrow> fst (startRecording plat t i eng) \<noteq> Some RecordingInProgress"
  by (auto simp: startRecording_def createRecorder_def mrw_initialize_def recorder_start_def
        mrw_start_def Let_def split: option.splits)

text \<open>
  Claim C10. On an initialised engine whose recorder completes asynchronously,
  \<open>stopRecording\<close> returns with the state Idle, and from then on every
  \<open>startRecording\<close> is rejected with the recording-in-progress error and changes
  nothing, whatever control calls, playback calls, further \<open>stopRecording\<close> calls,
  progress ticks or chunk deliveries come in between: none of them clears the recorder
  reference. The
  completion callback \<open>processRecordingBuffer\<close> (on an existing track) clears it, and
  afterwards \<open>startRecording\<close> is no longer rejected with that error.
\<close>

theorem C10_rejected_until_completion:
  "(live_async eng \<longrightarrow>
      (\<exists>e1. stopRecording now eng = Inr e1 \<and> eng_state e1 = IDLE
         \<and> (\<forall>ops. \<exists>e2. run_ops ops e1 = Some e2
               \<and> (\<forall>plat t i. startRecording plat t i e2 = (Some RecordingInProgress, e2)))))
   \<and> (eng_audioContext eng \<and> map_of (eng_tracks eng) k = Some tr
        \<and> rb_numberOfChannels b \<le> length (rb_channelData b) \<longrightarrow>
      (\<exists>e'. processRecordingBuffer k b eng = Inr e' \<and> eng_recorder e' = None
         \<and> (\<forall>plat t i. fst (startRecording plat t i e') \<noteq> Some RecordingInProgress)))"
proof (intro conjI impI)
  assume l: "live_async eng"
  from stopRecording_async [OF l, of now] obtain e1 where
    e1: "stopRecording now eng = Inr e1" "eng_state e1 = IDLE" "live_async e1" by blast
  have "\<exists>e2. run_ops ops e1 = Some e2
          \<and> (\<forall>plat t i. startRecording plat t i e2 = (Some RecordingInProgress, e2))" for ops
    using live_run_ops [OF e1(3), of ops] by (auto simp: startRecording_rejected)
  with e1 show "\<exists>e1. stopRecording now eng = Inr e1 \<and> eng_state e1 = IDLE
         \<and> (\<forall>ops. \<exists>e2. run_ops ops e1 = Some e2
               \<and> (\<forall>plat t i. startRecording plat t i e2 = (Some RecordingInProgress, e2)))"
    by blast
next
  assume a: "eng_audioContext eng \<and> map_of (eng_tracks eng) k = Some tr
        \<and> rb_numberOfChannels b \<le> length (rb_channelData b)"
  then obtain e' where "processRecordingBuffer k b eng = Inr e'" "eng_recorder e' = None"
    using processRecordingBuffer_clears [of eng k tr b] by blast
  then show "\<exists>e'. processRecordingBuffer k b eng = Inr e' \<and> eng_recorder e' = None
         \<and> (\<forall>plat t i. fst (startRecording plat t i e') \<noteq> Some RecordingInProgress)"
    by (auto simp: startRecording_not_in_progress)
qed


theorem C10_rejected_until_completion_witness:
  "live_async eng_recording
   \<and> eng_state eng_stopped = IDLE
   \<and> startRecording plat_ok 5 2 eng_stopped = (Some RecordingInProgress, eng_stopped)
   \<and> map_sum id eng_recorder (processRecordingBuffer 1 (mrw_result buffer_ex) eng_stopped) = Inr None"
proof -
  have l: "live_async eng_recording" by code_simp
  from C10_rejected_until_completion [of eng_recording 2] l obtain e1 where
    e1: "stopRecording 2 eng_recording = Inr e1" "eng_state e1 = IDLE"
    and rej: "\<forall>ops. \<exists>e2. run_ops ops e1 = Some e2
               \<and> (\<forall>plat t i. startRecording plat t i e2 = (Some RecordingInProgress, e2))"
    by blast
  from e1 have s: "eng_stopped = e1" by (simp add: eng_stopped_def returned_def)
  from rej [rule_format, of "[]"] have
    r: "startRecording plat_ok 5 2 eng_stopped = (Some RecordingInProgress, eng_stopped)"
    by (simp add: s)
  have a: "eng_audioContext eng_stopped" by code_simp
  have t: "map_of (eng_tracks eng_stopped) 1 = Some (new_track 1)" by code_simp
  have c: "rb_numberOfChannels (mrw_result buffer_ex) \<le> length (rb_channelData (mrw_result buffer_ex))"
    by code_simp
  from C10_rejected_until_completion [of eng_stopped _ 1 "new_track 1" "mrw_result buffer_ex"] a t c obtain e' where
    "processRecordingBuffer 1 (mrw_result buffer_ex) eng_stopped = Inr e'" "eng_recorder e' = None"
    by blast
  with l e1 s r show ?thesis by simp
qed

section \<open>Decode failure of the container-based recorder\<close>

lemma processRecording_decode_fails:
  "mrw_recordedChunks w \<noteq> [] \<Longrightarrow> decode (mrw_recordedChunks w) = None \<Longrightarrow>
     processRecording decode w = (mrw_finally (w\<lparr> mrw_recordedChunks := [] \<rparr>), None)"
  by (simp add: processRecording_def Let_def)

lemma engine_onstop_decode_fails:
  "eng_recorder eng = Some (MRW w) \<Longrightarrow> mrw_recordedChunks w \<noteq> [] \<Longrightarrow>
   decode (mrw_recordedChunks w) = None \<Longrightarrow>
     engine_onstop decode eng =
       eng\<lparr> eng_recorder := Some (MRW (mrw_finally (w\<lparr> mrw_recordedChunks := [] \<rparr>))) \<rparr>"
  by (simp add: engine_onstop_def engine_finally_def Let_def)

lemma live_recorder_upd:
  "live_async eng \<Longrightarrow> live_async (eng\<lparr> eng_recorder := Some (MRW w) \<rparr>)"
  by (simp add: live_async_def is_async_recorder_def)

lemma rejected_from:
  assumes "live_async e"
  shows "\<forall>ops. \<exists>e2. run_ops ops e = Some e2
           \<and> (\<forall>plat t i. startRecording plat t i e2 = (Some RecordingInProgress, e2))"
proof
  fix ops
  from live_run_ops [OF assms, of ops]
  show "\<exists>e2. run_ops ops e = Some e2
           \<and> (\<forall>plat t i. startRecording plat t i e2 = (Some RecordingInProgress, e2))"
    by (auto simp: startRecording_rejected)
qed

text \<open>
  Claim C3, at every recording of the container-based recorder whose decode fails. On an
  initialised engine that holds the recorder with at least one chunk, the platform's
  \<open>onstop\<close> event runs \<open>processRecording\<close>; when the decode rejects, the
  \<open>catch\<close> block only logs. No \<open>onComplete\<close> call is made, the engine emits no
  event, so no error event, and its tracks and state are as before. The engine still
  holds the recorder and the microphone stream, and every later \<open>startRecording\<close> is
  rejected, whatever control, playback, stop, progress or chunk events come in between.
\<close>

theorem C3_decode_failure_silent:
  assumes "live_async eng" "eng_recorder eng = Some (MRW w)" "mrw_recordedChunks w \<noteq> []"
    "decode (mrw_recordedChunks w) = None"
  shows "snd (processRecording decode w) = None
    \<and> eng_emitted (engine_onstop decode eng) = eng_emitted eng
    \<and> error_events (engine_onstop decode eng) = error_events eng
    \<and> eng_tracks (engine_onstop decode eng) = eng_tracks eng
    \<and> eng_state (engine_onstop decode eng) = eng_state eng
    \<and> eng_mediaStream (engine_onstop decode eng) = eng_mediaStream eng
    \<and> eng_recorder (engine_onstop decode eng) = Some (MRW (fst (processRecording decode w)))
    \<and> (\<forall>ops. \<exists>e2. run_ops ops (engine_onstop decode eng) = Some e2
          \<and> (\<forall>plat t i. startRecording plat t i e2 = (Some RecordingInProgress, e2)))"
proof -
  let ?w = "mrw_finally (w\<lparr> mrw_recordedChunks := [] \<rparr>)"
  have e: "engine_onstop decode eng = eng\<lparr> eng_recorder := Some (MRW ?w) \<rparr>"
    using assms(2-4) by (rule engine_onstop_decode_fails)
  have p: "processRecording decode w = (?w, None)"
    using assms(3,4) by (rule processRecording_decode_fails)
  have "live_async (engine_onstop decode eng)"
    unfolding e using assms(1) by (rule live_recorder_upd)
  then have r: "\<forall>ops. \<exists>e2. run_ops ops (engine_onstop decode eng) = Some e2
          \<and> (\<forall>plat t i. startRecording plat t i e2 = (Some RecordingInProgress, e2))"
    by (rule rejected_from)
  have f: "snd (processRecording decode w) = None
    \<and> eng_emitted (engine_onstop decode eng) = eng_emitted eng
    \<and> error_events (engine_onstop decode eng) = error_events eng
    \<and> eng_tracks (engine_onstop decode eng) = eng_tracks eng
    \<and> eng_state (engine_onstop decode eng) = eng_state eng
    \<and> eng_mediaStream (engine_onstop decode eng) = eng_mediaStream eng
    \<and> eng_recorder (engine_onstop decode eng) = Some (MRW (fst (processRecording decode w)))"
    by (simp add: e p error_events_def)
  from f r show ?thesis by blast
qed

lemma eng_stopped_recorder:
  "eng_recorder eng_stopped = Some (MRW mrw_in_flight)"
  by code_simp

text \<open>
  A recording on track 1 whose decode fails: the events emitted since the construction
  of the engine are the initialisation, the two state changes and the progress tick,
  none of them an error event; track 1 has no buffer; the engine still holds the
  recorder and the microphone stream, and the next \<open>startRecording\<close> is rejected.
\<close>

theorem C3_decode_failure_silent_witness:
  "eng_recorder eng_stopped = Some (MRW mrw_in_flight)
   \<and> mrw_recordedChunks mrw_in_flight = [blob_ex]
   \<and> eng_emitted eng_decode_failed =
       [Initialized 48000, StateChanged RECORDING, RecordingProgress 1 (1 / 2), StateChanged IDLE]
   \<and> error_events eng_decode_failed = []
   \<and> eng_tracks eng_decode_failed = eng_tracks eng_stopped
   \<and> map_option audioBuffer (map_of (eng_tracks eng_decode_failed) 1) = Some None
   \<and> is_async_recorder eng_decode_failed
   \<and> eng_mediaStream eng_decode_failed
   \<and> eng_state eng_decode_failed = IDLE
   \<and> startRecording plat_ok 5 2 eng_decode_failed = (Some RecordingInProgress, eng_decode_failed)"
proof -
  have l: "live_async eng_stopped" by code_simp
  have c: "mrw_recordedChunks mrw_in_flight \<noteq> []" by (simp add: mrw_in_flight_eq)
  have d: "(\<lambda>_. None :: AudioBuffer option) (mrw_recordedChunks mrw_in_flight) = None" by simp
  note T = C3_decode_failure_silent [OF l eng_stopped_recorder c d]
  have ev: "eng_emitted eng_stopped =
       [Initialized 48000, StateChanged RECORDING, RecordingProgress 1 (1 / 2), StateChanged IDLE]
     \<and> error_events eng_stopped = []
     \<and> map_option audioBuffer (map_of (eng_tracks eng_stopped) 1) = Some None
     \<and> eng_mediaStream eng_stopped \<and> eng_state eng_stopped = IDLE"
    by code_simp
  from T have t1: "eng_emitted eng_decode_failed = eng_emitted eng_stopped"
    and t2: "error_events eng_decode_failed = error_events eng_stopped"
    and t3: "eng_tracks eng_decode_failed = eng_tracks eng_stopped"
    and t4: "eng_state eng_decode_failed = eng_state eng_stopped"
    and t5: "eng_mediaStream eng_decode_failed = eng_mediaStream eng_stopped"
    and t6: "eng_recorder eng_decode_failed =
               Some (MRW (fst (processRecording (\<lambda>_. None) mrw_in_flight)))"
    and t7: "\<forall>ops. \<exists>e2. run_ops ops eng_decode_failed = Some e2
          \<and> (\<forall>plat t i. startRecording plat t i e2 = (Some RecordingInProgress, e2))"
    unfolding eng_decode_failed_def by blast+
  from t7 [rule_format, of "[]"]
  have rej: "startRecording plat_ok 5 2 eng_decode_failed = (Some RecordingInProgress, eng_decode_failed)"
    by simp
  from t6 have a: "is_async_recorder eng_decode_failed" by (simp add: is_async_recorder_def)
  from ev t1 t2 t3 t4 t5 a rej show ?thesis
    by (simp add: eng_stopped_recorder mrw_in_flight_eq)
qed

section \<open>Rounding to doubles\<close>

lemma round_half_even_near: "\<bar>of_int (round_half_even x) - x\<bar> \<le> 1 / 2"
proof -
  have "of_int \<lfloor>x\<rfloor> \<le> x" "x < of_int \<lfloor>x\<rfloor> + 1" by linarith+
  then show ?thesis
    by (auto simp: round_half_even_def Let_def abs_le_iff)
qed

lemma round_half_even_nonneg: "0 \<le> x \<Longrightarrow> 0 \<le> round_half_even x"
  by (auto simp: round_half_even_def Let_def)

lemma exponent_le:
  assumes "0 < x"
  shows "2 powi (exponent x) \<le> x"
proof (cases "1 \<le> x")
  case True
  define n where "n = \<lfloor>x\<rfloor>"
  have n: "0 < n" using True by (simp add: n_def)
  have b: "1 \<le> bitlen n" using n by (simp add: bitlen_alt_def)
  have "(2::int) ^ nat (bitlen n - 1) \<le> n" using bitlen_bounds [OF n] by simp
  then have "real_of_int (2 ^ nat (bitlen n - 1)) \<le> real_of_int n" by linarith
  also have "real_of_int n \<le> x" by (simp add: n_def)
  finally have "(2::real) ^ nat (bitlen n - 1) \<le> x" by simp
  moreover have "(2::real) powi (bitlen n - 1) = 2 ^ nat (bitlen n - 1)"
    using b by (simp add: power_int_def)
  ultimately show ?thesis using True by (simp add: exponent_def n_def)
next
  case False
  define m where "m = \<lceil>1 / x\<rceil> - 1"
  have "1 < 1 / x" using False assms by simp
  then have m: "0 < m" unfolding m_def by linarith
  have b: "1 \<le> bitlen m" using m by (simp add: bitlen_alt_def)
  have "m < 2 ^ nat (bitlen m)" using bitlen_bounds [OF m] by simp
  then have "m + 1 \<le> 2 ^ nat (bitlen m)" by simp
  then have "real_of_int (m + 1) \<le> real_of_int (2 ^ nat (bitlen m))" by linarith
  moreover have "1 / x \<le> real_of_int (m + 1)" unfolding m_def by simp
  ultimately have "1 / x \<le> 2 ^ nat (bitlen m)" by simp
  then have "1 \<le> 2 ^ nat (bitlen m) * x" using assms by (simp add: field_simps)
  then have "1 / 2 ^ nat (bitlen m) \<le> x" by (simp add: field_simps)
  moreover have "(2::real) powi (- bitlen m) = 1 / 2 ^ nat (bitlen m)"
    using b by (simp add: power_int_def field_simps)
  ultimately show ?thesis using False by (simp add: exponent_def m_def)
qed

lemma exponent_gt:
  assumes "0 < x"
  shows "x < 2 powi (exponent x + 1)"
proof (cases "1 \<le> x")
  case True
  define n where "n = \<lfloor>x\<rfloor>"
  have n: "0 < n" using True by (simp add: n_def)
  have b: "1 \<le> bitlen n" using n by (simp add: bitlen_alt_def)
  have "n < 2 ^ nat (bitlen n)" using bitlen_bounds [OF n] by simp
  then have "n + 1 \<le> 2 ^ nat (bitlen n)" by simp
  then have "real_of_int (n + 1) \<le> real_of_int (2 ^ nat (bitlen n))" by linarith
  moreover have "x < real_of_int (n + 1)" unfolding n_def by linarith
  ultimately have "x < 2 ^ nat (bitlen n)" by simp
  moreover have "(2::real) powi (bitlen n) = 2 ^ nat (bitlen n)"
    using b by (simp add: power_int_def)
  ultimately show ?thesis using True by (simp add: exponent_def n_def)
next
  case False
  define m where "m = \<lceil>1 / x\<rceil> - 1"
  have "1 < 1 / x" using False assms by simp
  then have m: "0 < m" unfolding m_def by linarith
  have b: "1 \<le> bitlen m" using m by (simp add: bitlen_alt_def)
  have "(2::int) ^ nat (bitlen m - 1) \<le> m" using bitlen_bounds [OF m] by simp
  then have "real_of_int (2 ^ nat (bitlen m - 1)) \<le> real_of_int m" by linarith
  then have "2 ^ nat (bitlen m - 1) \<le> real_of_int m" by simp
  moreover have "real_of_int m < 1 / x" unfolding m_def by linarith
  ultimately have "2 ^ nat (bitlen m - 1) < 1 / x" by linarith
  then have "2 ^ nat (bitlen m - 1) * x < 1" using assms by (simp add: field_simps)
  then have "x < 1 / 2 ^ nat (bitlen m - 1)" by (simp add: field_simps)
  moreover have "(2::real) powi (- bitlen m + 1) = 1 / 2 ^ nat (bitlen m - 1)"
  proof -
    have "- bitlen m + 1 \<le> 0" using b by simp
    moreover have "nat (- (- bitlen m + 1)) = nat (bitlen m - 1)" by simp
    ultimately show ?thesis by (simp add: power_int_def field_simps)
  qed
  ultimately show ?thesis using False by (simp add: exponent_def m_def)
qed

lemma binary64_nonneg: "0 \<le> x \<Longrightarrow> 0 \<le> binary64 x"
  by (auto simp: binary64_def Let_def sgn_if round_half_even_nonneg)

lemma binary64_error:
  "\<bar>binary64 x - x\<bar> \<le> \<bar>x\<bar> / 2 ^ 53 + 1 / 2 ^ 1075"
proof (cases "x = 0")
  case True
  then show ?thesis by (simp add: binary64_def)
next
  case False
  define e where "e = max (exponent \<bar>x\<bar> - 52) (- 1074)"
  define q :: real where "q = 2 powi e"
  define k where "k = round_half_even (\<bar>x\<bar> / q)"
  have q: "0 < q" by (simp add: q_def)
  have b: "binary64 x = sgn x * of_int k * q"
    using False by (simp add: binary64_def Let_def k_def q_def e_def)
  have "\<bar>of_int k - \<bar>x\<bar> / q\<bar> \<le> 1 / 2" unfolding k_def by (rule round_half_even_near)
  then have "\<bar>of_int k - \<bar>x\<bar> / q\<bar> * q \<le> 1 / 2 * q" using q by (simp only: mult_le_cancel_right_pos)
  moreover have "\<bar>of_int k - \<bar>x\<bar> / q\<bar> * q = \<bar>(of_int k - \<bar>x\<bar> / q) * q\<bar>"
    using q by (simp add: abs_mult)
  moreover have "(of_int k - \<bar>x\<bar> / q) * q = of_int k * q - \<bar>x\<bar>"
    using q by (simp add: field_simps)
  ultimately have near: "\<bar>of_int k * q - \<bar>x\<bar>\<bar> \<le> q / 2" by simp
  have "\<bar>binary64 x - x\<bar> = \<bar>of_int k * q - \<bar>x\<bar>\<bar>"
    unfolding b using False by (cases "0 < x") (simp_all add: sgn_if)
  then have err: "\<bar>binary64 x - x\<bar> \<le> q / 2" using near by simp
  have "q \<le> \<bar>x\<bar> / 2 ^ 52 + 1 / 2 ^ 1074"
  proof (cases "exponent \<bar>x\<bar> - 52 \<le> - 1074")
    case True
    then have "e = - 1074" by (simp add: e_def)
    then have "q = 1 / 2 ^ 1074" by (simp add: q_def power_int_def field_simps)
    moreover have "0 \<le> \<bar>x\<bar> / 2 ^ 52" by simp
    ultimately show ?thesis by linarith
  next
    case c: False
    then have "e = exponent \<bar>x\<bar> - 52" by (simp add: e_def)
    then have "q = 2 powi (exponent \<bar>x\<bar>) / 2 ^ 52"
      by (simp add: q_def power_int_diff)
    moreover have "2 powi (exponent \<bar>x\<bar>) \<le> \<bar>x\<bar>" using False by (intro exponent_le) simp
    ultimately have "q \<le> \<bar>x\<bar> / 2 ^ 52" by (simp add: divide_right_mono)
    moreover have "(0::real) \<le> 1 / 2 ^ 1074" by simp
    ultimately show ?thesis by linarith
  qed
  then have "q / 2 \<le> \<bar>x\<bar> / 2 ^ 53 + 1 / 2 ^ 1075" by simp
  with err show ?thesis by linarith
qed


lemma binary64_error_weak: "\<bar>binary64 x - x\<bar> \<le> \<bar>x\<bar> / 2 ^ 53 + 1 / 2 ^ 60"
proof -
  have "(1::real) / 2 ^ 1075 \<le> 1 / 2 ^ 60"
    by (intro divide_left_mono power_increasing) simp_all
  with binary64_error [of x] show ?thesis by linarith
qed

lemma floor_round_close:
  fixes x y :: real
  assumes "\<bar>y - x\<bar> < 1 / 2"
  shows "\<bar>\<lfloor>y\<rfloor> - round x\<bar> \<le> 1"
proof -
  have "\<lfloor>y\<rfloor> \<le> \<lfloor>x + 1 / 2\<rfloor>" using assms by (intro floor_mono) linarith
  moreover have "\<lfloor>x + 1 / 2\<rfloor> \<le> \<lfloor>y + 1\<rfloor>" using assms by (intro floor_mono) linarith
  ultimately show ?thesis by (simp add: round_def)
qed

lemma double_product_near:
  assumes d: "0 \<le> d" and sr: "0 \<le> sr" "sr \<le> 2 ^ 50" and n: "d * sr \<le> 2 ^ 50"
  shows "\<bar>double_mul (binary64 d) sr - d * sr\<bar> < 1 / 2"
proof -
  define p where "p = binary64 d * sr"
  have "\<bar>binary64 d - d\<bar> \<le> d / 2 ^ 53 + 1 / 2 ^ 60"
    using binary64_error_weak [of d] d by simp
  then have "\<bar>binary64 d - d\<bar> * sr \<le> (d / 2 ^ 53 + 1 / 2 ^ 60) * sr"
    using sr(1) by (rule mult_right_mono)
  moreover have "\<bar>binary64 d - d\<bar> * sr = \<bar>p - d * sr\<bar>"
  proof -
    have "p - d * sr = (binary64 d - d) * sr" by (simp add: p_def left_diff_distrib)
    then show ?thesis using sr(1) by (simp add: abs_mult)
  qed
  moreover have "(d / 2 ^ 53 + 1 / 2 ^ 60) * sr = (d * sr) / 2 ^ 53 + sr / 2 ^ 60"
    by (simp add: field_simps)
  moreover have "(d * sr) / 2 ^ 53 \<le> 2 ^ 50 / 2 ^ 53" using n by (rule divide_right_mono) simp
  moreover have "sr / 2 ^ 60 \<le> 2 ^ 50 / 2 ^ 60" using sr(2) by (rule divide_right_mono) simp
  ultimately have e1: "\<bar>p - d * sr\<bar> \<le> 1 / 8 + 1 / 1024" by simp
  have "0 \<le> d * sr" using d sr(1) by simp
  with e1 n have "\<bar>p\<bar> \<le> 2 ^ 50 + 1" by linarith
  then have "\<bar>p\<bar> / 2 ^ 53 \<le> (2 ^ 50 + 1) / 2 ^ 53" by (rule divide_right_mono) simp
  moreover have "\<bar>binary64 p - p\<bar> \<le> \<bar>p\<bar> / 2 ^ 53 + 1 / 2 ^ 60"
    by (rule binary64_error_weak)
  ultimately have e2: "\<bar>binary64 p - p\<bar> \<le> 1 / 8 + 1 / 1024" by simp
  from e1 e2 have "\<bar>binary64 p - d * sr\<bar> < 1 / 2" by linarith
  then show ?thesis by (simp add: double_mul_def p_def)
qed

text \<open>
  Some doubles: the double nearest to 0.1 and the product \<open>3 * 0.1\<close>; ties going to
  the even neighbour above \<open>2^53\<close>; the clock reading of one render quantum at
  48000 Hz, whose exact product with the rate is below 128 while the double product is
  128.
\<close>

lemma binary64_examples:
  "binary64 (1 / 10) = 3602879701896397 / 36028797018963968
   \<and> double_mul 3 (binary64 (1 / 10)) = 1351079888211149 / 4503599627370496
   \<and> binary64 (2 ^ 53 + 1) = 2 ^ 53
   \<and> binary64 (2 ^ 53 + 3) = 2 ^ 53 + 4
   \<and> quantum_time = 6148914691236517 / 2305843009213693952
   \<and> \<lfloor>quantum_time * 48000\<rfloor> = 127
   \<and> \<lfloor>double_mul (double_sub quantum_time 0) 48000\<rfloor> = 128"
  by code_simp

lemma floor_round_near: "\<bar>\<lfloor>x\<rfloor> - round x\<bar> \<le> 1" for x :: real
proof -
  have "\<lfloor>x\<rfloor> \<le> \<lfloor>x + 1 / 2\<rfloor>" by (rule floor_mono) simp
  moreover have "\<lfloor>x + 1 / 2\<rfloor> \<le> \<lfloor>x + 1\<rfloor>" by (rule floor_mono) simp
  ultimately show ?thesis by (simp add: round_def)
qed

text \<open>
  The length \<open>stop()\<close> computes is not negative when the clock did not run backwards,
  and it is within one sample of the rounded exact product for every session of fewer
  than \<open>2^50\<close> samples.
\<close>

lemma computed_length_nonneg:
  assumes "0 \<le> t1 - t0" "0 \<le> sampleRate"
  shows "0 \<le> \<lfloor>double_mul (double_sub t1 t0) sampleRate\<rfloor>"
proof -
  have "0 \<le> double_sub t1 t0" using assms(1) by (simp add: double_sub_def binary64_nonneg)
  then have "0 \<le> double_sub t1 t0 * sampleRate" using assms(2) by simp
  then have "0 \<le> double_mul (double_sub t1 t0) sampleRate"
    by (simp add: double_mul_def binary64_nonneg)
  then show ?thesis by simp
qed

lemma computed_length_near:
  assumes "0 \<le> t1 - t0" "0 \<le> sampleRate" "sampleRate \<le> 2 ^ 50" "(t1 - t0) * sampleRate \<le> 2 ^ 50"
  shows "\<bar>\<lfloor>double_mul (double_sub t1 t0) sampleRate\<rfloor> - round ((t1 - t0) * sampleRate)\<bar> \<le> 1"
  using double_product_near [OF assms] unfolding double_sub_def by (rule floor_round_close)

section \<open>Sessions of the block-callback recorder\<close>

lemma place_chunk_length:
  "length (fst st) = n \<Longrightarrow> length (fst (place_chunk n c st)) = n"
  by (auto simp: place_chunk_def Let_def)

lemma fold_place_chunk_length:
  "length (fst st) = n \<Longrightarrow> length (fst (fold (place_chunk n) cs st)) = n"
  by (induction cs arbitrary: st) (simp_all add: place_chunk_length)

lemma organizeChannelData_ok:
  assumes "0 \<le> \<lfloor>double_mul duration sampleRate\<rfloor>"
  shows "\<exists>cd. organizeChannelData sampleRate buf 2 duration = Inr cd \<and> length cd = 2
           \<and> (\<forall>c \<in> set cd. int (length c) = \<lfloor>double_mul duration sampleRate\<rfloor>)"
  using assms
  by (auto simp: organizeChannelData_def Float32Array_new_def Let_def fold_place_chunk_length)

lemma organizeChannelData_neg:
  "\<lfloor>double_mul duration sampleRate\<rfloor> < 0 \<Longrightarrow>
     organizeChannelData sampleRate buf 2 duration = Inl RangeError"
  by (simp add: organizeChannelData_def Float32Array_new_def Let_def)

lemma fold_spr_onaudioprocess:
  "spr_isRecording r \<Longrightarrow>
     fold spr_onaudioprocess blocks r =
       r\<lparr> spr_recordingBuffer := spr_recordingBuffer r @ concat blocks \<rparr>"
  by (induction blocks arbitrary: r) (simp_all add: spr_onaudioprocess_def)

lemma spr_session_trace:
  assumes "0 \<le> \<lfloor>double_mul (double_sub t1 t0) sampleRate\<rfloor>"
  shows "\<exists>b. spr_session sampleRate c t0 blocks t1 =
            Inr (StartCalled # map (\<lambda>_. ChunkDelivered) blocks @
                 [StopCalled, OnComplete b, DisposeCalled])
          \<and> rb_numberOfChannels b = 2 \<and> length (rb_channelData b) = 2
          \<and> rb_sampleRate b = sampleRate
          \<and> rb_length b = \<lfloor>double_mul (double_sub t1 t0) sampleRate\<rfloor>
          \<and> (\<forall>ch \<in> set (rb_channelData b).
                int (length ch) = \<lfloor>double_mul (double_sub t1 t0) sampleRate\<rfloor>)"
proof -
  from organizeChannelData_ok [OF assms, of "concat blocks"] obtain cd where
    cd: "organizeChannelData sampleRate (concat blocks) 2 (double_sub t1 t0) = Inr cd" "length cd = 2"
      "\<forall>c \<in> set cd. int (length c) = \<lfloor>double_mul (double_sub t1 t0) sampleRate\<rfloor>" by blast
  show ?thesis
    using cd
    by (simp add: spr_session_def spr_start_def spr_new_def fold_spr_onaudioprocess
          spr_stop_def spr_dispose_def completion_def Let_def)
qed

lemma spr_session_throws:
  "\<lfloor>double_mul (double_sub t1 t0) sampleRate\<rfloor> < 0 \<Longrightarrow>
     spr_session sampleRate c t0 blocks t1 = Inl RangeError"
  by (simp add: spr_session_def spr_start_def spr_new_def fold_spr_onaudioprocess
        spr_stop_def organizeChannelData_neg Let_def)

section \<open>Sessions of the worklet recorder and of the container-based recorder\<close>

lemma fold_rp_process:
  "rp_isRecording p \<Longrightarrow>
     fold (\<lambda>inp. rp_process (fst inp) (snd inp)) inputs p =
       p\<lparr> rp_recordedChunks := rp_recordedChunks p @
            map (recorded_chunk (rp_channelCount p)) (filter (\<lambda>inp. fst inp \<noteq> []) inputs) \<rparr>"
  by (induction inputs arbitrary: p) (simp_all add: rp_process_def recorded_chunk_def)

lemma typed_set_length: "typed_set d c off = Inr d' \<Longrightarrow> length d' = length d"
  by (auto simp: typed_set_def split: if_splits)

lemma copy_chunk_lengths:
  "copy_chunk off cs dst = Inr dst' \<Longrightarrow> map length dst' = map length dst"
proof (induction off cs dst arbitrary: dst' rule: copy_chunk.induct)
  case (1 offset cs)
  then show ?case by simp
next
  case (2 offset d ds)
  then show ?case by simp
next
  case (3 offset c cs d ds)
  from "3.prems" obtain d' ds' where
    d': "typed_set d c offset = Inr d'" and ds': "copy_chunk offset cs ds = Inr ds'"
    and eq: "dst' = d' # ds'"
    by (auto split: sum.splits)
  from "3.IH" [OF d' ds'] typed_set_length [OF d'] show ?case by (simp add: eq)
qed

lemma copy_chunks_lengths:
  "copy_chunks off chunks dst = Inr dst' \<Longrightarrow> map length dst' = map length dst"
proof (induction chunks arbitrary: off dst)
  case Nil
  then show ?case by simp
next
  case (Cons chunk rest)
  from Cons.prems obtain c0 cs dst1 where
    c: "channelData chunk = c0 # cs"
    and d1: "copy_chunk off (channelData chunk) dst = Inr dst1"
    and r: "copy_chunks (off + length c0) rest dst1 = Inr dst'"
    by (auto split: list.splits sum.splits)
  from Cons.IH [OF r] copy_chunk_lengths [OF d1] show ?case by simp
qed

lemma copy_chunk_ok:
  "\<forall>d \<in> set dst. length d = L \<Longrightarrow> \<forall>c \<in> set cs. off + length c \<le> L \<Longrightarrow>
     \<exists>dst'. copy_chunk off cs dst = Inr dst'"
proof (induction off cs dst rule: copy_chunk.induct)
  case (1 offset cs)
  then show ?case by simp
next
  case (2 offset d ds)
  then show ?case by simp
next
  case (3 offset c cs d ds)
  from "3.prems" have t: "typed_set d c offset =
      Inr (take offset d @ c @ drop (offset + length c) d)"
    by (simp add: typed_set_def)
  from "3.IH" [OF t] "3.prems" obtain ds' where "copy_chunk offset cs ds = Inr ds'" by auto
  with t show ?case by simp
qed

lemma copy_chunks_ok:
  assumes "\<forall>d \<in> set dst. length d = L" "\<forall>ch \<in> set chunks. chunk_wf ch"
    "off + chunks_totalLength chunks \<le> L"
  shows "\<exists>dst'. copy_chunks off chunks dst = Inr dst'"
  using assms
proof (induction chunks arbitrary: off dst)
  case Nil
  then show ?case by simp
next
  case (Cons chunk rest)
  from Cons.prems(2) obtain c0 cs where c: "channelData chunk = c0 # cs"
    and u: "\<forall>c \<in> set (channelData chunk). length c = length c0"
    by (cases "channelData chunk") (auto simp: chunk_wf_def)
  have tl: "chunks_totalLength (chunk # rest) = length c0 + chunks_totalLength rest"
    by (simp add: chunks_totalLength_def c)
  with Cons.prems(3) have le: "off + length c0 \<le> L"
    and le': "(off + length c0) + chunks_totalLength rest \<le> L" by simp_all
  from u le have "\<forall>c' \<in> set (channelData chunk). off + length c' \<le> L" by simp
  from copy_chunk_ok [OF Cons.prems(1) this] obtain dst1 where
    d1: "copy_chunk off (channelData chunk) dst = Inr dst1" by blast
  from copy_chunk_lengths [OF d1] have "map length dst1 = map length dst" .
  then have "length ` set dst1 = length ` set dst" by (metis set_map)
  with Cons.prems(1) have a1: "\<forall>d \<in> set dst1. length d = L" by (auto simp: image_iff) 
  from Cons.prems(2) have a2: "\<forall>ch \<in> set rest. chunk_wf ch" by simp
  from Cons.IH [OF a1 a2 le'] obtain dst' where
    "copy_chunks (off + length c0) rest dst1 = Inr dst'" by blast
  with c d1 show ?case by simp
qed


lemma handleRecordingComplete_result:
  assumes "handleRecordingComplete sampleRate recordedData = Inr (Some b)"
  shows "rb_numberOfChannels b = length (channelData (hd recordedData))
       \<and> length (rb_channelData b) = length (channelData (hd recordedData))
       \<and> rb_length b = int (chunks_totalLength recordedData)
       \<and> rb_sampleRate b = sampleRate
       \<and> (\<forall>c \<in> set (rb_channelData b). length c = chunks_totalLength recordedData)"
proof -
  from assms obtain first rest where rd: "recordedData = first # rest"
    by (cases recordedData) (auto simp: handleRecordingComplete_def)
  let ?n = "length (channelData first)" and ?L = "chunks_totalLength recordedData"
  from assms rd obtain cd where
    cc: "copy_chunks 0 recordedData (replicate ?n (replicate ?L 0)) = Inr cd"
    and ar: "abr_result sampleRate ?n cd = Inr (Some b)"
    by (auto simp: handleRecordingComplete_def Let_def split: sum.splits)
  from copy_chunks_lengths [OF cc] have ml: "map length cd = replicate ?n ?L"
    by (simp add: map_replicate_const)
  then have len: "length cd = ?n" by (metis length_map length_replicate)
  from ml have all: "\<forall>c \<in> set cd. length c = ?L"
    by (metis in_set_replicate set_map imageI)
  from ar obtain c0 cs where cd: "cd = c0 # cs"
    and b: "b = \<lparr> rb_trackId = 0, rb_sampleRate = sampleRate, rb_numberOfChannels = ?n,
                  rb_length = int (length c0), rb_channelData = cd \<rparr>"
    by (cases cd) (auto simp: abr_result_def)
  from all cd have "length c0 = ?L" by simp
  with b len all rd show ?thesis by simp
qed

lemma handleRecordingComplete_ok:
  assumes ne: "recordedData \<noteq> []" and wf: "\<forall>ch \<in> set recordedData. chunk_wf ch"
  shows "\<exists>b. handleRecordingComplete sampleRate recordedData = Inr (Some b)"
proof -
  from ne obtain first rest where rd: "recordedData = first # rest" by (cases recordedData) auto
  let ?n = "length (channelData first)" and ?L = "chunks_totalLength recordedData"
  from wf rd have n: "?n > 0" by (simp add: chunk_wf_def)
  have "\<exists>cd. copy_chunks 0 recordedData (replicate ?n (replicate ?L 0)) = Inr cd"
    by (rule copy_chunks_ok [where L = ?L]) (use wf in simp_all)
  then obtain cd where cc: "copy_chunks 0 recordedData (replicate ?n (replicate ?L 0)) = Inr cd" ..
  from copy_chunks_lengths [OF cc] have "length cd = ?n"
    by (metis length_map length_replicate)
  with n obtain c0 cs where "cd = c0 # cs" by (cases cd) auto
  with cc rd show ?thesis
    by (simp add: handleRecordingComplete_def Let_def abr_result_def)
qed

lemma worklet_session_eq:
  "worklet_session sampleRate c t0 inputs t1 =
     (case handleRecordingComplete sampleRate
             (map (recorded_chunk (effective_channels c)) (filter (\<lambda>inp. fst inp \<noteq> []) inputs)) of
        Inl e \<Rightarrow> Inl e
      | Inr cb \<Rightarrow> Inr (StartCalled # map (\<lambda>_. ChunkDelivered) inputs @
                      StopCalled # completion cb @ [DisposeCalled]))"
  by (simp add: worklet_session_def abr_initialize_def abr_new_def abr_start_def abr_stop_def
        abr_dispose_def abr_onmessage_def rp_onmessage_start_def rp_startRecording_def
        rp_new_def rp_stopRecording_def fold_rp_process effective_channels_def completion_def
        Let_def split: sum.splits)

lemma effective_channels_pos: "0 < effective_channels c"
  by (simp add: effective_channels_def)

lemma recorded_chunk_wf:
  "uniform_block inp \<Longrightarrow> chunk_wf (recorded_chunk (effective_channels c) inp)"
proof -
  assume u: "uniform_block inp"
  then obtain x xs where i: "fst inp = x # xs" by (cases "fst inp") (auto simp: uniform_block_def)
  from effective_channels_pos [of c] obtain m where m: "effective_channels c = Suc m"
    by (cases "effective_channels c") auto
  from u i have all: "\<forall>y \<in> set (fst inp). length y = length x"
    by (simp add: uniform_block_def list_all_iff)
  have "set (take (min (length (fst inp)) (effective_channels c)) (fst inp)) \<subseteq> set (fst inp)"
    by (rule set_take_subset)
  with all have "\<forall>y \<in> set (take (min (length (fst inp)) (effective_channels c)) (fst inp)). length y = length x"
    by blast
  then show ?thesis
    by (simp add: chunk_wf_def recorded_chunk_def i m)
qed

lemma chunks_totalLength_recorded:
  "chunks_totalLength (map (recorded_chunk (effective_channels c)) (filter (\<lambda>inp. fst inp \<noteq> []) inputs))
     = recorded_frames inputs"
proof -
  from effective_channels_pos [of c] obtain m where m: "effective_channels c = Suc m"
    by (cases "effective_channels c") auto
  have h: "(case channelData (recorded_chunk (Suc m) inp) of [] \<Rightarrow> 0 | c0 # _ \<Rightarrow> length c0)
          = length (hd (fst inp))" if "fst inp \<noteq> []" for inp :: "Float32Array list \<times> real"
    using that by (cases "fst inp") (simp_all add: recorded_chunk_def)
  have e: "map (\<lambda>x. case channelData (recorded_chunk (Suc m) x) of [] \<Rightarrow> 0 | c0 # _ \<Rightarrow> length c0)
            (filter (\<lambda>inp. fst inp \<noteq> []) inputs)
        = map (\<lambda>inp. length (hd (fst inp))) (filter (\<lambda>inp. fst inp \<noteq> []) inputs)"
    by (rule map_cong) (simp_all add: h)
  show ?thesis
    by (simp only: chunks_totalLength_def recorded_frames_def m map_map comp_def e)
qed

lemma fold_mrw_ondataavailable:
  "fold mrw_ondataavailable blobs w =
     w\<lparr> mrw_recordedChunks := mrw_recordedChunks w @ kept_blobs blobs \<rparr>"
  by (induction blobs arbitrary: w) (simp_all add: mrw_ondataavailable_def kept_blobs_def)

lemma container_session_eq:
  "container_session decode c t0 blobs t1 lastBlobs =
     Inr (StartCalled # map (\<lambda>_. ChunkDelivered) blobs @
          StopCalled # map (\<lambda>_. ChunkDelivered) lastBlobs @
          completion (if kept_blobs (blobs @ lastBlobs) = [] then None
                      else map_option mrw_result (decode (kept_blobs (blobs @ lastBlobs)))) @
          [DisposeCalled])"
  by (simp add: container_session_def mrw_start_def mrw_new_def fold_mrw_ondataavailable
        mrw_stop_def mrw_dispose_def mrw_cleanup_def mrw_finally_def processRecording_def
        kept_blobs_def completion_def Let_def split: option.splits)


section \<open>What a session delivers\<close>

lemma OnComplete_in_spr_trace:
  "OnComplete b \<in> set (StartCalled # map (\<lambda>_. ChunkDelivered) xs @ [StopCalled, OnComplete b', DisposeCalled])
     \<longleftrightarrow> b = b'"
  by auto

lemma OnComplete_in_trace:
  "OnComplete b \<in> set (StartCalled # map (\<lambda>_. ChunkDelivered) xs @ StopCalled # completion cb @ [DisposeCalled])
     \<longleftrightarrow> cb = Some b"
  by (cases cb) (auto simp: completion_def)

lemma OnComplete_in_container_trace:
  "OnComplete b \<in> set (StartCalled # map (\<lambda>_. ChunkDelivered) xs @ StopCalled #
                         map (\<lambda>_. ChunkDelivered) ys @ completion cb @ [DisposeCalled])
     \<longleftrightarrow> cb = Some b"
  by (cases cb) (auto simp: completion_def)

text \<open>What a session of each recorder delivers, if it delivers.\<close>

lemma spr_session_delivers:
  assumes "spr_session sampleRate c t0 blocks t1 = Inr tr" "OnComplete b \<in> set tr"
  shows "rb_numberOfChannels b = 2 \<and> length (rb_channelData b) = 2
       \<and> rb_length b = \<lfloor>double_mul (double_sub t1 t0) sampleRate\<rfloor>
       \<and> (\<forall>ch \<in> set (rb_channelData b). int (length ch) = \<lfloor>double_mul (double_sub t1 t0) sampleRate\<rfloor>)"
proof (cases "0 \<le> \<lfloor>double_mul (double_sub t1 t0) sampleRate\<rfloor>")
  case True
  from spr_session_trace [OF True, of c blocks] obtain b' where
    tr: "spr_session sampleRate c t0 blocks t1 =
            Inr (StartCalled # map (\<lambda>_. ChunkDelivered) blocks @
                 [StopCalled, OnComplete b', DisposeCalled])"
    and p: "rb_numberOfChannels b' = 2" "length (rb_channelData b') = 2"
      "rb_length b' = \<lfloor>double_mul (double_sub t1 t0) sampleRate\<rfloor>"
      "\<forall>ch \<in> set (rb_channelData b'). int (length ch) = \<lfloor>double_mul (double_sub t1 t0) sampleRate\<rfloor>"
    by blast
  from assms tr have "OnComplete b \<in> set (StartCalled # map (\<lambda>_. ChunkDelivered) blocks @
                 [StopCalled, OnComplete b', DisposeCalled])" by simp
  then have "b = b'" by (simp only: OnComplete_in_spr_trace)
  with p show ?thesis by simp
next
  case False
  then have "spr_session sampleRate c t0 blocks t1 = Inl RangeError"
    by (intro spr_session_throws) simp
  with assms show ?thesis by simp
qed

lemma worklet_session_delivers:
  assumes "worklet_session sampleRate c t0 inputs t1 = Inr tr" "OnComplete b \<in> set tr"
  shows "rb_numberOfChannels b = min (first_input_channels inputs) (effective_channels c)
       \<and> length (rb_channelData b) = rb_numberOfChannels b
       \<and> rb_length b = int (recorded_frames inputs)
       \<and> (\<forall>ch \<in> set (rb_channelData b). length ch = recorded_frames inputs)"
proof -
  let ?data = "map (recorded_chunk (effective_channels c)) (filter (\<lambda>inp. fst inp \<noteq> []) inputs)"
  from assms(1) obtain cb where
    h: "handleRecordingComplete sampleRate ?data = Inr cb"
    and tr: "tr = StartCalled # map (\<lambda>_. ChunkDelivered) inputs @ StopCalled # completion cb @ [DisposeCalled]"
    by (auto simp: worklet_session_eq split: sum.splits)
  from assms(2) have "cb = Some b" unfolding tr by (simp only: OnComplete_in_trace)
  with h have hb: "handleRecordingComplete sampleRate ?data = Inr (Some b)" by simp
  then have ne: "?data \<noteq> []" by (auto simp: handleRecordingComplete_def)
  then obtain inp rest where f: "filter (\<lambda>inp. fst inp \<noteq> []) inputs = inp # rest"
    by (cases "filter (\<lambda>inp. fst inp \<noteq> []) inputs") auto
  have n: "length (channelData (hd ?data)) = min (first_input_channels inputs) (effective_channels c)"
    by (simp add: f first_input_channels_def recorded_chunk_def)
  from handleRecordingComplete_result [OF hb] n show ?thesis
    by (simp add: chunks_totalLength_recorded)
qed

lemma container_session_delivers:
  assumes "container_session decode c t0 blobs t1 lastBlobs = Inr tr" "OnComplete b \<in> set tr"
  shows "\<exists>ab. decode (kept_blobs (blobs @ lastBlobs)) = Some ab \<and> b = mrw_result ab"
proof -
  let ?cb = "if kept_blobs (blobs @ lastBlobs) = [] then None
             else map_option mrw_result (decode (kept_blobs (blobs @ lastBlobs)))"
  from assms(1) have tr: "tr = StartCalled # map (\<lambda>_. ChunkDelivered) blobs @
          StopCalled # map (\<lambda>_. ChunkDelivered) lastBlobs @ completion ?cb @ [DisposeCalled]"
    by (simp add: container_session_eq)
  from assms(2) have "?cb = Some b"
    unfolding tr by (simp only: OnComplete_in_container_trace)
  then show ?thesis by (auto split: if_splits)
qed


lemma worklet_session_completes:
  assumes "inputs \<noteq> []" "list_all uniform_block inputs"
  shows "\<exists>b. worklet_session sampleRate c t0 inputs t1 =
            Inr (StartCalled # map (\<lambda>_. ChunkDelivered) inputs @
                 [StopCalled, OnComplete b, DisposeCalled])"
proof -
  let ?data = "map (recorded_chunk (effective_channels c)) (filter (\<lambda>inp. fst inp \<noteq> []) inputs)"
  from assms(2) have f: "filter (\<lambda>inp. fst inp \<noteq> []) inputs = inputs"
    by (auto simp: list_all_iff uniform_block_def)
  have ne: "?data \<noteq> []" using assms(1) by (simp add: f)
  have wf: "\<forall>ch \<in> set ?data. chunk_wf ch"
    using assms(2) by (auto simp: f list_all_iff recorded_chunk_wf)
  from handleRecordingComplete_ok [OF ne wf, of sampleRate] obtain b where
    "handleRecordingComplete sampleRate ?data = Inr (Some b)" ..
  then show ?thesis by (simp add: worklet_session_eq completion_def)
qed

text \<open>
  The \<open>onComplete\<close> calls of a session. The block-callback recorder makes exactly
  one, inside \<open>stop()\<close>, for every number of blocks delivered (zero included), and a
  later \<open>dispose\<close> adds none. The worklet recorder makes exactly one, after
  \<open>stop()\<close>, when at least one block was delivered. The container-based recorder
  makes exactly one, after \<open>stop()\<close>, when a non-empty chunk arrived and the decode
  succeeds, and none otherwise.
\<close>

lemma session_completions:
  "(0 \<le> t1 - t0 \<and> 0 \<le> sampleRate \<longrightarrow>
      (\<exists>b. spr_session sampleRate c t0 blocks t1 =
              Inr (StartCalled # map (\<lambda>_. ChunkDelivered) blocks @
                   [StopCalled, OnComplete b, DisposeCalled])))
   \<and> (inputs \<noteq> [] \<and> list_all uniform_block inputs \<longrightarrow>
      (\<exists>b. worklet_session sampleRate c t0 inputs t1 =
              Inr (StartCalled # map (\<lambda>_. ChunkDelivered) inputs @
                   [StopCalled, OnComplete b, DisposeCalled])))
   \<and> (kept_blobs (blobs @ lastBlobs) \<noteq> [] \<and> decode (kept_blobs (blobs @ lastBlobs)) = Some ab \<longrightarrow>
      container_session decode c t0 blobs t1 lastBlobs =
        Inr (StartCalled # map (\<lambda>_. ChunkDelivered) blobs @
             StopCalled # map (\<lambda>_. ChunkDelivered) lastBlobs @
             [OnComplete (mrw_result ab), DisposeCalled]))
   \<and> (kept_blobs (blobs @ lastBlobs) = [] \<or> decode (kept_blobs (blobs @ lastBlobs)) = None \<longrightarrow>
      container_session decode c t0 blobs t1 lastBlobs =
        Inr (StartCalled # map (\<lambda>_. ChunkDelivered) blobs @
             StopCalled # map (\<lambda>_. ChunkDelivered) lastBlobs @ [DisposeCalled]))"
proof (intro conjI impI)
  assume "0 \<le> t1 - t0 \<and> 0 \<le> sampleRate"
  then have "0 \<le> \<lfloor>double_mul (double_sub t1 t0) sampleRate\<rfloor>" by (intro computed_length_nonneg) simp_all
  from spr_session_trace [OF this, of c blocks]
  show "\<exists>b. spr_session sampleRate c t0 blocks t1 =
              Inr (StartCalled # map (\<lambda>_. ChunkDelivered) blocks @
                   [StopCalled, OnComplete b, DisposeCalled])"
    by blast
next
  assume "inputs \<noteq> [] \<and> list_all uniform_block inputs"
  then show "\<exists>b. worklet_session sampleRate c t0 inputs t1 =
              Inr (StartCalled # map (\<lambda>_. ChunkDelivered) inputs @
                   [StopCalled, OnComplete b, DisposeCalled])"
    by (intro worklet_session_completes) simp_all
next
  assume "kept_blobs (blobs @ lastBlobs) \<noteq> [] \<and> decode (kept_blobs (blobs @ lastBlobs)) = Some ab"
  then show "container_session decode c t0 blobs t1 lastBlobs =
        Inr (StartCalled # map (\<lambda>_. ChunkDelivered) blobs @
             StopCalled # map (\<lambda>_. ChunkDelivered) lastBlobs @
             [OnComplete (mrw_result ab), DisposeCalled])"
    by (simp add: container_session_eq completion_def)
next
  assume "kept_blobs (blobs @ lastBlobs) = [] \<or> decode (kept_blobs (blobs @ lastBlobs)) = None"
  then show "container_session decode c t0 blobs t1 lastBlobs =
        Inr (StartCalled # map (\<lambda>_. ChunkDelivered) blobs @
             StopCalled # map (\<lambda>_. ChunkDelivered) lastBlobs @ [DisposeCalled])"
    by (auto simp: container_session_eq completion_def)
qed

lemma completions_no_call:
  "completions (Inr (StartCalled # map (\<lambda>_. ChunkDelivered) xs @
                     StopCalled # map (\<lambda>_. ChunkDelivered) ys @ [DisposeCalled])) = 0"
  by (simp add: completions_def is_OnComplete_def filter_map comp_def)

lemma engine_onstop_no_chunks:
  "eng_recorder eng = Some (MRW w) \<Longrightarrow> mrw_recordedChunks w = [] \<Longrightarrow>
     engine_onstop decode eng = eng\<lparr> eng_recorder := Some (MRW (w\<lparr> mrw_isProcessing := False \<rparr>)) \<rparr>"
  by (simp add: engine_onstop_def)

text \<open>
  Claim C2 at sessions without data. A container session in which no non-empty chunk
  arrives (it is stopped at once and the platform delivers nothing, or only empty
  blobs) ends without an \<open>onComplete\<close> call, whatever the decoder would do:
  \<open>processRecording\<close> returns at its test for an empty chunk list, before its
  \<open>try\<close>. A worklet session stopped before any block makes no call either
  (\<open>handleRecordingComplete\<close> returns on empty data). On an initialised engine that
  holds the container-based recorder without chunks, the platform's \<open>onstop\<close> event
  only clears the processing flag: the engine still holds the recorder and the
  microphone stream, and every later \<open>startRecording\<close> is rejected, whatever control,
  playback, stop, progress or chunk events come in between.
\<close>

theorem C2_no_completion_without_data:
  "(kept_blobs (blobs @ lastBlobs) = [] \<longrightarrow>
        container_session decode c t0 blobs t1 lastBlobs =
          Inr (StartCalled # map (\<lambda>_. ChunkDelivered) blobs @
               StopCalled # map (\<lambda>_. ChunkDelivered) lastBlobs @ [DisposeCalled])
      \<and> completions (container_session decode c t0 blobs t1 lastBlobs) = 0)
   \<and> worklet_session sampleRate c t0 [] t1 = Inr [StartCalled, StopCalled, DisposeCalled]
   \<and> completions (worklet_session sampleRate c t0 [] t1) = 0
   \<and> (live_async eng \<and> eng_recorder eng = Some (MRW w) \<and> mrw_recordedChunks w = [] \<longrightarrow>
        eng_recorder (engine_onstop decode eng) = Some (MRW (w\<lparr> mrw_isProcessing := False \<rparr>))
      \<and> eng_mediaStream (engine_onstop decode eng) = eng_mediaStream eng
      \<and> eng_emitted (engine_onstop decode eng) = eng_emitted eng
      \<and> (\<forall>ops. \<exists>e2. run_ops ops (engine_onstop decode eng) = Some e2
            \<and> (\<forall>plat t i. startRecording plat t i e2 = (Some RecordingInProgress, e2))))"
proof (intro conjI)
  show "kept_blobs (blobs @ lastBlobs) = [] \<longrightarrow>
        container_session decode c t0 blobs t1 lastBlobs =
          Inr (StartCalled # map (\<lambda>_. ChunkDelivered) blobs @
               StopCalled # map (\<lambda>_. ChunkDelivered) lastBlobs @ [DisposeCalled])
      \<and> completions (container_session decode c t0 blobs t1 lastBlobs) = 0"
  proof
    assume "kept_blobs (blobs @ lastBlobs) = []"
    then have "container_session decode c t0 blobs t1 lastBlobs =
          Inr (StartCalled # map (\<lambda>_. ChunkDelivered) blobs @
               StopCalled # map (\<lambda>_. ChunkDelivered) lastBlobs @ [DisposeCalled])"
      by (simp add: container_session_eq completion_def)
    then show "container_session decode c t0 blobs t1 lastBlobs =
          Inr (StartCalled # map (\<lambda>_. ChunkDelivered) blobs @
               StopCalled # map (\<lambda>_. ChunkDelivered) lastBlobs @ [DisposeCalled])
      \<and> completions (container_session decode c t0 blobs t1 lastBlobs) = 0"
      by (simp only: completions_no_call)
  qed
next
  show w: "worklet_session sampleRate c t0 [] t1 = Inr [StartCalled, StopCalled, DisposeCalled]"
    by (simp add: worklet_session_eq handleRecordingComplete_def completion_def)
  show "completions (worklet_session sampleRate c t0 [] t1) = 0"
    unfolding w by (simp add: completions_def is_OnComplete_def)
next
  show "live_async eng \<and> eng_recorder eng = Some (MRW w) \<and> mrw_recordedChunks w = [] \<longrightarrow>
        eng_recorder (engine_onstop decode eng) = Some (MRW (w\<lparr> mrw_isProcessing := False \<rparr>))
      \<and> eng_mediaStream (engine_onstop decode eng) = eng_mediaStream eng
      \<and> eng_emitted (engine_onstop decode eng) = eng_emitted eng
      \<and> (\<forall>ops. \<exists>e2. run_ops ops (engine_onstop decode eng) = Some e2
            \<and> (\<forall>plat t i. startRecording plat t i e2 = (Some RecordingInProgress, e2)))"
  proof
    assume a: "live_async eng \<and> eng_recorder eng = Some (MRW w) \<and> mrw_recordedChunks w = []"
    then have e: "engine_onstop decode eng =
                    eng\<lparr> eng_recorder := Some (MRW (w\<lparr> mrw_isProcessing := False \<rparr>)) \<rparr>"
      by (intro engine_onstop_no_chunks) simp_all
    from a have "live_async (engine_onstop decode eng)"
      unfolding e by (intro live_recorder_upd) simp
    then have r: "\<forall>ops. \<exists>e2. run_ops ops (engine_onstop decode eng) = Some e2
            \<and> (\<forall>plat t i. startRecording plat t i e2 = (Some RecordingInProgress, e2))"
      by (rule rejected_from)
    have f: "eng_recorder (engine_onstop decode eng) = Some (MRW (w\<lparr> mrw_isProcessing := False \<rparr>))
      \<and> eng_mediaStream (engine_onstop decode eng) = eng_mediaStream eng
      \<and> eng_emitted (engine_onstop decode eng) = eng_emitted eng"
      by (simp add: e)
    from f r show "eng_recorder (engine_onstop decode eng) = Some (MRW (w\<lparr> mrw_isProcessing := False \<rparr>))
      \<and> eng_mediaStream (engine_onstop decode eng) = eng_mediaStream eng
      \<and> eng_emitted (engine_onstop decode eng) = eng_emitted eng
      \<and> (\<forall>ops. \<exists>e2. run_ops ops (engine_onstop decode eng) = Some e2
            \<and> (\<forall>plat t i. startRecording plat t i e2 = (Some RecordingInProgress, e2)))"
      by blast
  qed
qed

lemma eng_stopped_empty_recorder:
  "eng_recorder eng_stopped_empty = Some (MRW mrw_no_chunks)"
  by code_simp

text \<open>
  A container session stopped at once, where the platform delivers one empty blob before
  \<open>onstop\<close>: no \<open>onComplete\<close> call. The same for the worklet recorder stopped before
  any block. The block-callback recorder stopped at once makes its one call, with a
  result of length 0. The engine that recorded track 1 this way still holds the recorder
  and the microphone stream, and the next \<open>startRecording\<close> is rejected.
\<close>

theorem C2_no_completion_without_data_witness:
  "container_session decode_ok 2 0 [] 0 [blob_empty] =
     Inr [StartCalled, StopCalled, ChunkDelivered, DisposeCalled]
   \<and> completions (container_session decode_ok 2 0 [] 0 [blob_empty]) = 0
   \<and> completions (worklet_session 44100 2 0 [] 0) = 0
   \<and> completions (spr_session 44100 2 0 [] 0) = 1
   \<and> delivered (spr_session 44100 2 0 [] 0) = [spr_empty_result]
   \<and> is_async_recorder eng_no_chunks
   \<and> eng_mediaStream eng_no_chunks
   \<and> eng_state eng_no_chunks = IDLE
   \<and> startRecording plat_ok 1 2 eng_no_chunks = (Some RecordingInProgress, eng_no_chunks)"
proof -
  have k: "kept_blobs ([] @ [blob_empty]) = []" by code_simp
  have l: "live_async eng_stopped_empty" by code_simp
  have n: "mrw_recordedChunks mrw_no_chunks = []" by code_simp
  have ev: "eng_mediaStream eng_stopped_empty \<and> eng_state eng_no_chunks = IDLE" by code_simp
  have sp: "completions (spr_session 44100 2 0 [] 0) = 1
     \<and> delivered (spr_session 44100 2 0 [] 0) = [spr_empty_result]" by code_simp
  note T = C2_no_completion_without_data [where blobs = "[]" and lastBlobs = "[blob_empty]"
      and decode = decode_ok and c = 2 and ?t0.0 = 0 and ?t1.0 = 0 and sampleRate = 44100
      and eng = eng_stopped_empty and w = mrw_no_chunks]
  from T [THEN conjunct1, rule_format, OF k]
  have a: "container_session decode_ok 2 0 [] 0 [blob_empty] =
             Inr [StartCalled, StopCalled, ChunkDelivered, DisposeCalled]
           \<and> completions (container_session decode_ok 2 0 [] 0 [blob_empty]) = 0"
    by (simp add: completions_def is_OnComplete_def)
  from T [THEN conjunct2, THEN conjunct2, THEN conjunct1]
  have b: "completions (worklet_session 44100 2 0 [] 0) = 0" .
  from T [THEN conjunct2, THEN conjunct2, THEN conjunct2, rule_format,
      OF conjI [OF l conjI [OF eng_stopped_empty_recorder n]]]
  have t1: "eng_recorder eng_no_chunks = Some (MRW (mrw_no_chunks\<lparr> mrw_isProcessing := False \<rparr>))"
    and t2: "eng_mediaStream eng_no_chunks = eng_mediaStream eng_stopped_empty"
    and t3: "\<forall>ops. \<exists>e2. run_ops ops eng_no_chunks = Some e2
          \<and> (\<forall>plat t i. startRecording plat t i e2 = (Some RecordingInProgress, e2))"
    unfolding eng_no_chunks_def by blast+
  from t3 [rule_format, of "[]"]
  have rej: "startRecording plat_ok 1 2 eng_no_chunks = (Some RecordingInProgress, eng_no_chunks)"
    by simp
  from t1 have r: "is_async_recorder eng_no_chunks" by (simp add: is_async_recorder_def)
  from ev t2 have m: "eng_mediaStream eng_no_chunks \<and> eng_state eng_no_chunks = IDLE" by simp
  from a b sp m r rej show ?thesis by blast
qed

text \<open>
  Claim C1, as the code has it. For the block-callback recorder every channel array of
  the result has the length \<open>Math.floor(duration * sampleRate)\<close>, where
  \<open>duration\<close> is the difference of the clock readings and both operations are those
  of doubles. That length is within one sample of the rounded double product; it is
  within one sample of the rounded exact product of elapsed time and sample rate when
  the clock did not run backwards, the sample rate is between 0 and \<open>2^50\<close> and the
  exact product is at most \<open>2^50\<close>. For the worklet recorder every channel array has
  as many samples as frames were recorded (the summed block lengths), whatever the
  elapsed time. For the container-based recorder the arrays and the length are those of
  the decoded buffer, so the arrays have one and the same length, the length of the
  result, when the decoded buffer has the platform's invariant.
\<close>

theorem C1_result_length:
  "(spr_session sampleRate c t0 blocks t1 = Inr tr \<and> OnComplete b \<in> set tr \<longrightarrow>
        (\<forall>ch \<in> set (rb_channelData b). int (length ch) = \<lfloor>double_mul (double_sub t1 t0) sampleRate\<rfloor>)
      \<and> rb_length b = \<lfloor>double_mul (double_sub t1 t0) sampleRate\<rfloor>
      \<and> \<bar>rb_length b - round (double_mul (double_sub t1 t0) sampleRate)\<bar> \<le> 1
      \<and> (0 \<le> t1 - t0 \<and> 0 \<le> sampleRate \<and> sampleRate \<le> 2 ^ 50 \<and> (t1 - t0) * sampleRate \<le> 2 ^ 50 \<longrightarrow>
            \<bar>rb_length b - round ((t1 - t0) * sampleRate)\<bar> \<le> 1))
   \<and> (worklet_session sampleRate c t0 inputs t1 = Inr tr \<and> OnComplete b \<in> set tr \<longrightarrow>
        (\<forall>ch \<in> set (rb_channelData b). length ch = recorded_frames inputs)
      \<and> rb_length b = int (recorded_frames inputs))
   \<and> (container_session decode c t0 blobs t1 lastBlobs = Inr tr \<and> OnComplete b \<in> set tr \<longrightarrow>
        (\<exists>ab. decode (kept_blobs (blobs @ lastBlobs)) = Some ab
           \<and> rb_channelData b = ab_channelData ab \<and> rb_length b = ab_length ab
           \<and> (ab_wf ab \<longrightarrow> (\<forall>ch \<in> set (rb_channelData b). int (length ch) = rb_length b))))"
proof (intro conjI)
  show "spr_session sampleRate c t0 blocks t1 = Inr tr \<and> OnComplete b \<in> set tr \<longrightarrow>
        (\<forall>ch \<in> set (rb_channelData b). int (length ch) = \<lfloor>double_mul (double_sub t1 t0) sampleRate\<rfloor>)
      \<and> rb_length b = \<lfloor>double_mul (double_sub t1 t0) sampleRate\<rfloor>
      \<and> \<bar>rb_length b - round (double_mul (double_sub t1 t0) sampleRate)\<bar> \<le> 1
      \<and> (0 \<le> t1 - t0 \<and> 0 \<le> sampleRate \<and> sampleRate \<le> 2 ^ 50 \<and> (t1 - t0) * sampleRate \<le> 2 ^ 50 \<longrightarrow>
            \<bar>rb_length b - round ((t1 - t0) * sampleRate)\<bar> \<le> 1)"
  proof
    assume a: "spr_session sampleRate c t0 blocks t1 = Inr tr \<and> OnComplete b \<in> set tr"
    then have d: "rb_length b = \<lfloor>double_mul (double_sub t1 t0) sampleRate\<rfloor>
         \<and> (\<forall>ch \<in> set (rb_channelData b). int (length ch) = \<lfloor>double_mul (double_sub t1 t0) sampleRate\<rfloor>)"
      using spr_session_delivers [of sampleRate c t0 blocks t1 tr b] by simp
    have n1: "\<bar>\<lfloor>double_mul (double_sub t1 t0) sampleRate\<rfloor> - round (double_mul (double_sub t1 t0) sampleRate)\<bar> \<le> 1"
      by (rule floor_round_near)
    have n2: "0 \<le> t1 - t0 \<and> 0 \<le> sampleRate \<and> sampleRate \<le> 2 ^ 50 \<and> (t1 - t0) * sampleRate \<le> 2 ^ 50 \<longrightarrow>
            \<bar>\<lfloor>double_mul (double_sub t1 t0) sampleRate\<rfloor> - round ((t1 - t0) * sampleRate)\<bar> \<le> 1"
      using computed_length_near [of t1 t0 sampleRate] by blast
    from d n1 n2 show "(\<forall>ch \<in> set (rb_channelData b). int (length ch) = \<lfloor>double_mul (double_sub t1 t0) sampleRate\<rfloor>)
      \<and> rb_length b = \<lfloor>double_mul (double_sub t1 t0) sampleRate\<rfloor>
      \<and> \<bar>rb_length b - round (double_mul (double_sub t1 t0) sampleRate)\<bar> \<le> 1
      \<and> (0 \<le> t1 - t0 \<and> 0 \<le> sampleRate \<and> sampleRate \<le> 2 ^ 50 \<and> (t1 - t0) * sampleRate \<le> 2 ^ 50 \<longrightarrow>
            \<bar>rb_length b - round ((t1 - t0) * sampleRate)\<bar> \<le> 1)"
      by simp
  qed
next
  show "worklet_session sampleRate c t0 inputs t1 = Inr tr \<and> OnComplete b \<in> set tr \<longrightarrow>
        (\<forall>ch \<in> set (rb_channelData b). length ch = recorded_frames inputs)
      \<and> rb_length b = int (recorded_frames inputs)"
    using worklet_session_delivers [of sampleRate c t0 inputs t1 tr b] by simp
next
  show "container_session decode c t0 blobs t1 lastBlobs = Inr tr \<and> OnComplete b \<in> set tr \<longrightarrow>
        (\<exists>ab. decode (kept_blobs (blobs @ lastBlobs)) = Some ab
           \<and> rb_channelData b = ab_channelData ab \<and> rb_length b = ab_length ab
           \<and> (ab_wf ab \<longrightarrow> (\<forall>ch \<in> set (rb_channelData b). int (length ch) = rb_length b)))"
  proof
    assume a: "container_session decode c t0 blobs t1 lastBlobs = Inr tr \<and> OnComplete b \<in> set tr"
    then obtain ab where "decode (kept_blobs (blobs @ lastBlobs)) = Some ab" "b = mrw_result ab"
      using container_session_delivers [of decode c t0 blobs t1 lastBlobs tr b] by blast
    then show "\<exists>ab. decode (kept_blobs (blobs @ lastBlobs)) = Some ab
           \<and> rb_channelData b = ab_channelData ab \<and> rb_length b = ab_length ab
           \<and> (ab_wf ab \<longrightarrow> (\<forall>ch \<in> set (rb_channelData b). int (length ch) = rb_length b))"
      by (auto simp: mrw_result_def ab_wf_def list_all_iff)
  qed
qed

lemma worklet_session_ex:
  "worklet_session 44100 2 0 [block128] 2 =
     Inr [StartCalled, ChunkDelivered, StopCalled, OnComplete worklet_result_ex, DisposeCalled]"
  by code_simp

lemma container_session_ex:
  "container_session decode_ok 2 0 [blob_ex] 2 [] =
     Inr [StartCalled, ChunkDelivered, StopCalled, OnComplete (mrw_result buffer_ex), DisposeCalled]"
  by code_simp

lemma delivered_one:
  "delivered (Inr (StartCalled # map (\<lambda>_. ChunkDelivered) xs @ StopCalled #
                   map (\<lambda>_. ChunkDelivered) ys @ [OnComplete b, DisposeCalled])) = [b]"
  by (simp add: delivered_def)

lemma spr_session_quantum:
  "spr_session 48000 2 0 [tone_block] quantum_time =
     Inr [StartCalled, ChunkDelivered, StopCalled, OnComplete spr_quantum_result, DisposeCalled]"
  by code_simp

text \<open>
  The scenario of the specification for the block-callback recorder: 2.0 seconds at
  44100 Hz yield 88200 samples on each channel. A session of one block of 128 frames at
  48000 Hz, stopped at the clock reading of one render quantum, yields the 128 samples of
  the block. The worklet session with one block of 128 frames yields 128; the container
  session yields the arrays of the decoded buffer, both of the length of the result.
\<close>

theorem C1_result_length_witness:
  "map rb_length (delivered (spr_session 44100 2 0 [] 2)) = [88200]
   \<and> map (\<lambda>b. map length (rb_channelData b)) (delivered (spr_session 44100 2 0 [] 2))
       = [[88200, 88200]]
   \<and> map (\<lambda>b. \<bar>rb_length b - round ((2 - 0) * 44100 :: real)\<bar>) (delivered (spr_session 44100 2 0 [] 2))
       = [0]
   \<and> delivered (spr_session 48000 2 0 [tone_block] quantum_time) = [spr_quantum_result]
   \<and> map (\<lambda>ch. int (length ch)) (rb_channelData spr_quantum_result) = [128, 128]
   \<and> map rb_length (delivered (worklet_session 44100 2 0 [block128] 2)) = [128]
   \<and> map rb_channelData (delivered (container_session decode_ok 2 0 [blob_ex] 2 []))
       = [ab_channelData buffer_ex]
   \<and> map (\<lambda>b. map (\<lambda>ch. int (length ch) = rb_length b) (rb_channelData b))
         (delivered (container_session decode_ok 2 0 [blob_ex] 2 []))
       = [[True, True]]"
proof -
  have f: "\<lfloor>double_mul (double_sub 2 0) 44100\<rfloor> = 88200" by code_simp
  have q: "\<lfloor>double_mul (double_sub quantum_time 0) 48000\<rfloor> = 128" by code_simp
  have h: "0 \<le> \<lfloor>double_mul (double_sub 2 0) 44100\<rfloor>" by (simp only: f)
  from spr_session_trace [OF h, of 2 "[]"] obtain b1 where
    s1: "spr_session 44100 2 0 [] 2 = Inr [StartCalled, StopCalled, OnComplete b1, DisposeCalled]"
    and n1: "length (rb_channelData b1) = 2"
    by auto
  let ?tr1 = "[StartCalled, StopCalled, OnComplete b1, DisposeCalled]"
  let ?tr2 = "[StartCalled, ChunkDelivered, StopCalled, OnComplete worklet_result_ex, DisposeCalled]"
  let ?tr3 = "[StartCalled, ChunkDelivered, StopCalled, OnComplete (mrw_result buffer_ex), DisposeCalled]"
  let ?tr4 = "[StartCalled, ChunkDelivered, StopCalled, OnComplete spr_quantum_result, DisposeCalled]"
  have m1: "OnComplete b1 \<in> set ?tr1" by simp
  have m2: "OnComplete worklet_result_ex \<in> set ?tr2" by simp
  have m3: "OnComplete (mrw_result buffer_ex) \<in> set ?tr3" by simp
  have m4: "OnComplete spr_quantum_result \<in> set ?tr4" by simp
  have r: "recorded_frames [block128] = 128" by code_simp
  have wf: "ab_wf buffer_ex" by code_simp
  have g: "(0::real) \<le> 2 - 0 \<and> (0::real) \<le> 44100 \<and> (44100::real) \<le> 2 ^ 50 \<and> (2 - 0) * 44100 \<le> (2::real) ^ 50"
    by simp
  note S = C1_result_length [where sampleRate = 44100 and c = 2 and ?t0.0 = 0 and blocks = "[]"
      and ?t1.0 = 2 and tr = ?tr1 and b = b1, THEN conjunct1, rule_format,
      OF conjI [OF s1 m1]]
  from S have w1: "(\<forall>ch \<in> set (rb_channelData b1). int (length ch) = 88200) \<and> rb_length b1 = 88200"
    by (simp only: f) simp
  from S [THEN conjunct2, THEN conjunct2, THEN conjunct2, rule_format, OF g]
  have w1': "\<bar>rb_length b1 - round ((2 - 0) * 44100 :: real)\<bar> \<le> 1" .
  from C1_result_length [where sampleRate = 48000 and c = 2 and ?t0.0 = 0 and blocks = "[tone_block]"
      and ?t1.0 = quantum_time and tr = ?tr4 and b = spr_quantum_result, THEN conjunct1, rule_format,
      OF conjI [OF spr_session_quantum m4]]
  have w4: "\<forall>ch \<in> set (rb_channelData spr_quantum_result). int (length ch) = 128"
    by (simp only: q) simp
  from C1_result_length [where sampleRate = 44100 and c = 2 and ?t0.0 = 0 and inputs = "[block128]"
      and ?t1.0 = 2 and tr = ?tr2 and b = worklet_result_ex, THEN conjunct2, THEN conjunct1,
      rule_format, OF conjI [OF worklet_session_ex m2]]
  have w2: "rb_length worklet_result_ex = 128"
    by (simp add: r)
  from C1_result_length [where decode = decode_ok and c = 2 and ?t0.0 = 0 and blobs = "[blob_ex]"
      and ?t1.0 = 2 and lastBlobs = "[]" and tr = ?tr3 and b = "mrw_result buffer_ex",
      THEN conjunct2, THEN conjunct2, rule_format, OF conjI [OF container_session_ex m3]]
  have w3: "rb_channelData (mrw_result buffer_ex) = ab_channelData buffer_ex
      \<and> (\<forall>ch \<in> set (rb_channelData (mrw_result buffer_ex)).
            int (length ch) = rb_length (mrw_result buffer_ex))"
    using wf by (auto simp: decode_ok_def)
  from n1 obtain x y where xy: "rb_channelData b1 = [x, y]"
    by (cases "rb_channelData b1"; cases "tl (rb_channelData b1)") auto
  with w1 have a1: "map length (rb_channelData b1) = [88200, 88200]" by simp
  from w1 have a2: "\<bar>rb_length b1 - round ((2 - 0) * 44100 :: real)\<bar> = 0" by simp
  have c2: "rb_channelData (mrw_result buffer_ex) = [[0, 0], [0, 0]]"
    by (simp add: mrw_result_def buffer_ex_def)
  from w3 have "\<forall>ch \<in> set (rb_channelData (mrw_result buffer_ex)).
                  int (length ch) = rb_length (mrw_result buffer_ex)" by (rule conjunct2)
  then have a3: "map (\<lambda>ch. int (length ch) = rb_length (mrw_result buffer_ex))
                      (rb_channelData (mrw_result buffer_ex)) = [True, True]"
    by (simp add: c2)
  have c4: "rb_channelData spr_quantum_result = [replicate 128 (1 / 2), replicate 128 (1 / 4)]"
    by (simp add: spr_quantum_result_def)
  from w4 have a4: "map (\<lambda>ch. int (length ch)) (rb_channelData spr_quantum_result) = [128, 128]"
    by (simp add: c4)
  have d1: "delivered (spr_session 44100 2 0 [] 2) = [b1]"
    unfolding s1 using delivered_one [of "[]" "[]" b1] by simp
  have d2: "delivered (worklet_session 44100 2 0 [block128] 2) = [worklet_result_ex]"
    unfolding worklet_session_ex using delivered_one [of "[block128]" "[]" worklet_result_ex] by simp
  have d3: "delivered (container_session decode_ok 2 0 [blob_ex] 2 []) = [mrw_result buffer_ex]"
    unfolding container_session_ex using delivered_one [of "[blob_ex]" "[]" "mrw_result buffer_ex"]
    by simp
  have d4: "delivered (spr_session 48000 2 0 [tone_block] quantum_time) = [spr_quantum_result]"
    unfolding spr_session_quantum using delivered_one [of "[tone_block]" "[]" spr_quantum_result] by simp
  from a1 a2 a3 a4 w1 w2 w3 show ?thesis by (simp add: d1 d2 d3 d4)
qed

text \<open>
  Against the claim as stated: a worklet session at 44100 Hz, stopped after 2 seconds with
  one block of 128 frames delivered, yields 128 samples per channel, not 88200.
\<close>

theorem C1_worklet_length_counterexample:
  "worklet_session 44100 2 0 [block128] 2 =
     Inr [StartCalled, ChunkDelivered, StopCalled, OnComplete worklet_result_ex, DisposeCalled]
   \<and> rb_length worklet_result_ex = 128
   \<and> round ((2 - 0) * 44100 :: real) = 88200
   \<and> \<not> \<bar>rb_length worklet_result_ex - round ((2 - 0) * 44100 :: real)\<bar> \<le> 1"
  by code_simp







end
